theory Spec2Isabelle
  imports Complex_Main
begin

section \<open>Python values, floats with infinities, and errors\<close>

text \<open>
  The exceptions the modelled code can raise. A function that can raise returns a sum
  with the error on the left; a method that raises after it has already written to its
  object returns the error together with the object as the exception leaves it.
\<close>

datatype error =
  TypeError | ValueError | ZeroDivisionError | AssertionError | OverflowError | IndexError

text \<open>
  The dynamically typed arguments of the constructor and of \<open>add\<close>: the code checks
  (or fails to check) what it is handed, so the model has to be able to hand it a
  string or \<open>None\<close> where a number is expected.
\<close>

datatype pyval = PyNone | PyInt int | PyFloat real | PyStr string

fun is_numeric :: "pyval \<Rightarrow> bool" where
  "is_numeric (PyInt i) = True"
| "is_numeric (PyFloat r) = True"
| "is_numeric v = False"

text \<open>
  A float is a real, an infinity or NaN: finite floats are modelled as reals, without
  rounding. The fields \<open>min\<close> and \<open>max\<close> start at \<open>math.inf\<close> and \<open>-math.inf\<close>, so
  the two infinities and the NaN their difference can produce are values of the model,
  with Python's rules for them. A float handed to \<open>add\<close> is finite.
\<close>

datatype pyfloat = NaN | NInf | Fin real | PInf

fun py_lt :: "pyfloat \<Rightarrow> pyfloat \<Rightarrow> bool" where
  "py_lt NaN b = False"
| "py_lt a NaN = False"
| "py_lt NInf NInf = False"
| "py_lt NInf b = True"
| "py_lt (Fin x) NInf = False"
| "py_lt (Fin x) (Fin y) = (x < y)"
| "py_lt (Fin x) PInf = True"
| "py_lt PInf b = False"

fun py_ge :: "pyfloat \<Rightarrow> pyfloat \<Rightarrow> bool" where
  "py_ge NaN b = False"
| "py_ge a NaN = False"
| "py_ge a b = (\<not> py_lt a b)"


definition py_max :: "pyfloat \<Rightarrow> pyfloat \<Rightarrow> pyfloat" where
  "py_max a b = (if py_lt a b then b else a)"

fun py_sub :: "pyfloat \<Rightarrow> pyfloat \<Rightarrow> pyfloat" where
  "py_sub NaN b = NaN"
| "py_sub a NaN = NaN"
| "py_sub (Fin x) (Fin y) = Fin (x - y)"
| "py_sub (Fin x) PInf = NInf"
| "py_sub (Fin x) NInf = PInf"
| "py_sub PInf PInf = NaN"
| "py_sub PInf b = PInf"
| "py_sub NInf NInf = NaN"
| "py_sub NInf b = NInf"

text \<open>Division of a float by a finite number; dividing by zero raises.\<close>

fun py_div :: "pyfloat \<Rightarrow> real \<Rightarrow> error + pyfloat" where
  "py_div a m =
     (if m = 0 then Inl ZeroDivisionError
      else Inr (case a of
                  NaN \<Rightarrow> NaN
                | Fin x \<Rightarrow> Fin (x / m)
                | PInf \<Rightarrow> (if 0 < m then PInf else NInf)
                | NInf \<Rightarrow> (if 0 < m then NInf else PInf)))"

text \<open>
  Python's ints are unbounded and its floats are not. Where an int meets a float in
  arithmetic the int is converted first, and the conversion raises \<open>OverflowError\<close>
  when the int rounds to a value beyond the largest float, which is the case from
  \<open>2^1024 - 2^970\<close> on. A comparison of an int with a float is exact and never raises.
  Float arithmetic itself is exact here: no rounding and no overflow to infinity.
\<close>

definition float_limit :: real where
  "float_limit = 2 ^ 1024 - 2 ^ 970"

definition float_of_int :: "int \<Rightarrow> error + real" where
  "float_of_int i = (if \<bar>of_int i\<bar> < float_limit then Inr (of_int i) else Inl OverflowError)"

text \<open>
  The field \<open>modulo\<close> is declared \<open>Union[int, float]\<close>: an int or a finite float. The
  fields \<open>min\<close> and \<open>max\<close> hold the infinite floats of their defaults or a value that
  \<open>add\<close> was handed, an int or a float as it came.
\<close>

datatype pynum = IntNum int | FloatNum real

datatype pybound = IntBound int | FloatBound pyfloat

fun pynum_value :: "pynum \<Rightarrow> real" where
  "pynum_value (IntNum i) = of_int i"
| "pynum_value (FloatNum r) = r"

fun pynum_to_float :: "pynum \<Rightarrow> error + real" where
  "pynum_to_float (IntNum i) = float_of_int i"
| "pynum_to_float (FloatNum r) = Inr r"

fun bound_value :: "pybound \<Rightarrow> pyfloat" where
  "bound_value (IntBound i) = Fin (of_int i)"
| "bound_value (FloatBound x) = x"

fun bound_to_float :: "pybound \<Rightarrow> error + pyfloat" where
  "bound_to_float (IntBound i) = (case float_of_int i of Inl e \<Rightarrow> Inl e | Inr x \<Rightarrow> Inr (Fin x))"
| "bound_to_float (FloatBound x) = Inr x"

fun as_bound :: "pyval \<Rightarrow> pybound option" where
  "as_bound (PyInt i) = Some (IntBound i)"
| "as_bound (PyFloat r) = Some (FloatBound (Fin r))"
| "as_bound v = None"

text \<open>\<open>min(a, b)\<close> and \<open>max(a, b)\<close> on ints and floats return one of their arguments as it is.\<close>

definition bound_min :: "pybound \<Rightarrow> pybound \<Rightarrow> pybound" where
  "bound_min a b = (if py_lt (bound_value b) (bound_value a) then b else a)"

definition bound_max :: "pybound \<Rightarrow> pybound \<Rightarrow> pybound" where
  "bound_max a b = (if py_lt (bound_value a) (bound_value b) then b else a)"

text \<open>
  \<open>a - b\<close>: two ints give an int; otherwise both operands become floats, the left one
  first.
\<close>

fun bound_sub :: "pybound \<Rightarrow> pybound \<Rightarrow> error + pybound" where
  "bound_sub (IntBound i) (IntBound j) = Inr (IntBound (i - j))"
| "bound_sub a b =
     (case bound_to_float a of
        Inl e \<Rightarrow> Inl e
      | Inr x \<Rightarrow>
          (case bound_to_float b of
             Inl e \<Rightarrow> Inl e
           | Inr y \<Rightarrow> Inr (FloatBound (py_sub x y))))"

text \<open>
  \<open>a / m\<close>: the quotient of two ints is computed exactly and raises \<open>OverflowError\<close>
  when it is beyond the floats; otherwise both operands become floats, the left one
  first, before the divisor is tested for zero.
\<close>

fun true_div :: "pybound \<Rightarrow> pynum \<Rightarrow> error + pyfloat" where
  "true_div (IntBound i) (IntNum j) =
     (if j = 0 then Inl ZeroDivisionError
      else if \<bar>of_int i / of_int j\<bar> < float_limit then Inr (Fin (of_int i / of_int j))
      else Inl OverflowError)"
| "true_div a m =
     (case bound_to_float a of
        Inl e \<Rightarrow> Inl e
      | Inr x \<Rightarrow>
          (case pynum_to_float m of
             Inl e \<Rightarrow> Inl e
           | Inr y \<Rightarrow> py_div x y))"

text \<open>
  \<open>divmod(value, modulo)\<close>: floor division with its remainder. Two ints are divided as
  ints; otherwise both operands become floats, the left one first, before the divisor is
  tested for zero. The quotient of floats is a whole number and is kept as an int here (as
  keys of a dictionary \<open>3\<close> and \<open>3.0\<close> are the same key), and the remainder is kept as
  its value.
\<close>

definition float_divmod :: "real \<Rightarrow> real \<Rightarrow> error + (int \<times> real)" where
  "float_divmod x y =
     (if y = 0 then Inl ZeroDivisionError else Inr (\<lfloor>x / y\<rfloor>, x - of_int \<lfloor>x / y\<rfloor> * y))"

fun py_divmod :: "pyval \<Rightarrow> pynum \<Rightarrow> error + (int \<times> real)" where
  "py_divmod (PyInt i) (IntNum j) =
     (if j = 0 then Inl ZeroDivisionError else Inr (i div j, of_int (i mod j)))"
| "py_divmod (PyInt i) (FloatNum y) =
     (case float_of_int i of Inl e \<Rightarrow> Inl e | Inr x \<Rightarrow> float_divmod x y)"
| "py_divmod (PyFloat x) m =
     (case pynum_to_float m of Inl e \<Rightarrow> Inl e | Inr y \<Rightarrow> float_divmod x y)"
| "py_divmod v m = Inl TypeError"

text \<open>
  An exception as the constructor raises it: its class and its argument, which is the
  offending value itself, a literal message, or an f-string (kept as its literal part and
  the value it formats).
\<close>

datatype exc_arg = Value pyval | Message string | Formatted string pyval

type_synonym exception = "error \<times> exc_arg"

text \<open>
  The field \<open>__vector\<close> starts as the empty list of its \<open>default_factory\<close> and is
  assigned tuples afterwards; a list and a tuple are never equal in Python, so the model
  keeps the two apart.
\<close>

datatype pyvec = ListVec "real list" | TupleVec "real list"

fun elems :: "pyvec \<Rightarrow> real list" where
  "elems (ListVec xs) = xs"
| "elems (TupleVec xs) = xs"

section \<open>ModuloPattern\<close>

text \<open>
  The dataclass of \<open>periodic_patterns_v2.py\<close>. The fields \<open>min\<close> and \<open>max\<close> are
  \<open>min_fld\<close> and \<open>max_fld\<close> here, the private dictionaries \<open>_remainders\<close> and
  \<open>_quotients\<close> are \<open>p_remainders\<close> and \<open>p_quotients\<close> (association lists in
  insertion order, as a Python dict keeps its keys), and the two caches \<open>__kde\<close> and
  \<open>__vector\<close> are \<open>kde_cache\<close> and \<open>vector_cache\<close>.
\<close>

record ModuloPattern =
  name :: string
  x_axis_labels :: "string list option"
  x_axis_name :: "string option"
  vector_dimension :: int
  modulo :: pynum
  min_periods :: int
  min_items :: int
  min_fld :: pybound
  max_fld :: pybound
  remainders :: "real list"
  p_remainders :: "(real \<times> pyval list) list"
  p_quotients :: "(int \<times> pyval list) list"
  kde_cache :: "(int \<times> real list \<times> real list) list"
  vector_cache :: pyvec

text \<open>
  Construction: the generated \<open>__init__\<close> stores the arguments and the defaults of the
  other fields, then \<open>__post_init__\<close> runs its checks in the order of the source. The
  exceptions are Python's own \<open>TypeError\<close> and \<open>ValueError\<close>, raised with the
  arguments of the source: \<open>TypeError(self.name)\<close>, \<open>ValueError(self.name)\<close>,
  \<open>TypeError(self.x_axis_name)\<close>, \<open>ValueError('modulo must not be zero')\<close> and
  \<open>TypeError(f'vector dimension must be a positive integer, got {self.vector_dimension}')\<close>.
\<close>

definition ModuloPattern_new ::
  "pyval \<Rightarrow> string list option \<Rightarrow> pyval \<Rightarrow> pyval \<Rightarrow> pynum \<Rightarrow> int \<Rightarrow> int
     \<Rightarrow> exception + ModuloPattern" where
  "ModuloPattern_new nm labels xname vdim m minp mini =
     (case nm of
        PyStr s \<Rightarrow>
          if length s = 0 then Inl (ValueError, Value nm)
          else if xname \<noteq> PyNone \<and> (case xname of PyStr x \<Rightarrow> False | _ \<Rightarrow> True)
          then Inl (TypeError, Value xname)
          else if pynum_value m = 0 then Inl (ValueError, Message ''modulo must not be zero'')
          else (case vdim of
                  PyInt d \<Rightarrow>
                    if 0 < d then
                      Inr \<lparr> name = s, x_axis_labels = labels,
                            x_axis_name = (case xname of PyStr x \<Rightarrow> (if x = [] then None else Some x)
                                           | _ \<Rightarrow> None),
                            vector_dimension = d, modulo = m, min_periods = minp, min_items = mini,
                            min_fld = FloatBound PInf, max_fld = FloatBound NInf, remainders = [],
                            p_remainders = [], p_quotients = [], kde_cache = [],
                            vector_cache = ListVec [] \<rparr>
                    else Inl (TypeError,
                              Formatted ''vector dimension must be a positive integer, got '' vdim)
                | _ \<Rightarrow> Inl (TypeError,
                            Formatted ''vector dimension must be a positive integer, got '' vdim))
      | _ \<Rightarrow> Inl (TypeError, Value nm))"

text \<open>\<open>d.setdefault(k, []).append(item)\<close> on a dictionary kept in insertion order.\<close>

fun setdefault_append :: "'k \<Rightarrow> 'v \<Rightarrow> ('k \<times> 'v list) list \<Rightarrow> ('k \<times> 'v list) list" where
  "setdefault_append k v [] = [(k, [v])]"
| "setdefault_append k v ((k', vs) # rest) =
     (if k' = k then (k', vs @ [v]) # rest else (k', vs) # setdefault_append k v rest)"

text \<open>
  \<open>add\<close>: the caches are reset first; \<open>min(value, self.min)\<close> raises \<open>TypeError\<close> for a
  value that does not compare with a number; \<open>divmod\<close> raises \<open>ZeroDivisionError\<close> for
  a zero modulo and \<open>OverflowError\<close> for an int that has to become a float and is too
  large. What has been assigned before the exception stays assigned.
\<close>

definition add :: "ModuloPattern \<Rightarrow> pyval \<Rightarrow> pyval \<Rightarrow> (error \<times> ModuloPattern) + ModuloPattern" where
  "add p v item =
     (let p1 = p\<lparr>kde_cache := [], vector_cache := TupleVec []\<rparr> in
      case as_bound v of
        None \<Rightarrow> Inl (TypeError, p1)
      | Some x \<Rightarrow>
          let p2 = p1\<lparr>min_fld := bound_min x (min_fld p1)\<rparr>;
              p3 = p2\<lparr>max_fld := bound_max x (max_fld p2)\<rparr>
          in case py_divmod v (modulo p3) of
               Inl e \<Rightarrow> Inl (e, p3)
             | Inr (quo, remainder) \<Rightarrow>
                 Inr (p3\<lparr>remainders := remainders p3 @ [remainder],
                          p_quotients := setdefault_append quo item (p_quotients p3),
                          p_remainders := setdefault_append remainder item (p_remainders p3)\<rparr>))"

text \<open>
  \<open>n_periods\<close> is \<open>max(0.0, (self.max - self.min) / self.modulo)\<close>. The subtraction and
  the division raise \<open>OverflowError\<close> where an int is too large for the float it has to
  become.
\<close>

definition n_periods :: "ModuloPattern \<Rightarrow> error + pyfloat" where
  "n_periods p =
     (case bound_sub (max_fld p) (min_fld p) of
        Inl e \<Rightarrow> Inl e
      | Inr d \<Rightarrow>
          (case true_div d (modulo p) of
             Inl e \<Rightarrow> Inl e
           | Inr q \<Rightarrow> Inr (py_max (Fin 0) q)))"

definition is_valid :: "ModuloPattern \<Rightarrow> error + bool" where
  "is_valid p =
     (case n_periods p of
        Inl e \<Rightarrow> Inl e
      | Inr n \<Rightarrow> Inr (py_ge n (Fin (of_int (min_periods p)))
                      \<and> min_items p \<le> int (length (remainders p))))"

text \<open>
  \<open>consecutive\<close>: the loop over the sorted keys of \<open>_quotients\<close>, with the accumulators
  \<open>out\<close> and \<open>buffer\<close> as arguments. The three branches are the source's; a key equal to
  the last buffered one falls through all of them.
\<close>

fun consecutive_loop :: "int list \<Rightarrow> int \<Rightarrow> int list list \<Rightarrow> int list \<Rightarrow> int list list" where
  "consecutive_loop [] min_length out buffer = out"
| "consecutive_loop (quo # rest) min_length out buffer =
     (if buffer = [] then consecutive_loop rest min_length out (buffer @ [quo])
      else if quo - 1 = last buffer then consecutive_loop rest min_length out (buffer @ [quo])
      else if quo \<noteq> last buffer then
        consecutive_loop rest min_length
          (if min_length \<le> int (length buffer) then out @ [buffer] else out) []
      else consecutive_loop rest min_length out buffer)"

definition consecutive :: "ModuloPattern \<Rightarrow> int \<Rightarrow> int list list" where
  "consecutive p min_length = consecutive_loop (sort (map fst (p_quotients p))) min_length [] []"

section \<open>kernel\_density.py\<close>

text \<open>
  \<open>KernelDensity\<close> is the class of scikit-learn, which is not part of the repository.
  The numbers it computes are a parameter of the model: \<open>score kern bandwidth data x\<close>
  is what \<open>score_samples\<close> returns at \<open>x\<close> (the log of the density) after \<open>fit(data)\<close>.
  What it refuses is written out from its documented input validation, in
  \<open>KernelDensity_fit\<close>: a kernel that is not one of its six, a bandwidth that is not
  positive, data that is not a two-dimensional array, and data without any sample all
  raise \<open>ValueError\<close>.

  The sequence that \<open>plot_kde_modulo\<close> is handed is a Python list or a numpy array, and
  an array is flat (shape \<open>(n,)\<close>) or a column (shape \<open>(n, 1)\<close>, as the sample data of
  the module is built with \<open>[:, np.newaxis]\<close>); arrays of other shapes are not modelled.
  The arithmetic on an array is elementwise and keeps the shape, and so does
  \<open>np.concatenate\<close>. \<open>xs % modulo\<close> raises \<open>TypeError\<close> for a Python list.
\<close>

datatype shape = Flat | Column

datatype pyseq = PyList "real list" | NdArray shape "real list"

type_synonym estimator = "string \<Rightarrow> real \<Rightarrow> real list \<Rightarrow> real \<Rightarrow> real"

definition kernels :: "string list" where
  "kernels = [''gaussian'', ''tophat'', ''epanechnikov'', ''exponential'', ''linear'', ''cosine'']"

definition KernelDensity_fit :: "string \<Rightarrow> real \<Rightarrow> pyseq \<Rightarrow> error + real list" where
  "KernelDensity_fit kern bandwidth xs =
     (if kern \<notin> set kernels then Inl ValueError
      else if bandwidth \<le> 0 then Inl ValueError
      else (case xs of
              NdArray Column values \<Rightarrow> (if values = [] then Inl ValueError else Inr values)
            | _ \<Rightarrow> Inl ValueError))"

text \<open>\<open>np.linspace(start, stop, num)\<close>: \<open>num\<close> points, both ends included.\<close>

definition linspace :: "real \<Rightarrow> real \<Rightarrow> nat \<Rightarrow> real list" where
  "linspace start stop num =
     map (\<lambda>i. start + of_nat i * ((stop - start) / of_nat (num - 1))) [0..<num]"

text \<open>The float \<open>%\<close>: the result has the sign of the divisor.\<close>

definition py_mod :: "real \<Rightarrow> real \<Rightarrow> real" where
  "py_mod x m = x - of_int \<lfloor>x / m\<rfloor> * m"

definition plot_kde ::
  "estimator \<Rightarrow> pyseq \<Rightarrow> real \<Rightarrow> real \<Rightarrow> string \<Rightarrow> real option \<Rightarrow> int
     \<Rightarrow> error + (real list \<times> real list)" where
  "plot_kde score xs min_val max_val kern bandwidth n_samples =
     (if \<not> min_val < max_val then Inl AssertionError
      else if \<not> 0 < n_samples then Inl AssertionError
      else
        let bw = (case bandwidth of None \<Rightarrow> (max_val - min_val) * 0.03 | Some b \<Rightarrow> b)
        in case KernelDensity_fit kern bw xs of
             Inl e \<Rightarrow> Inl e
           | Inr data \<Rightarrow>
               let kde_xs = linspace min_val max_val (nat n_samples);
                   kde_ys = map (\<lambda>x. exp (score kern bw data x)) kde_xs
               in Inr (kde_xs, kde_ys))"

definition plot_kde_modulo ::
  "estimator \<Rightarrow> pyseq \<Rightarrow> real \<Rightarrow> string \<Rightarrow> real option \<Rightarrow> int
     \<Rightarrow> error + (real list \<times> real list)" where
  "plot_kde_modulo score xs m kern bandwidth n_samples =
     (if \<not> 0 < n_samples then Inl AssertionError
      else
        (case xs of
           PyList values \<Rightarrow> Inl TypeError
         | NdArray sh values \<Rightarrow>
             let xs_mod = map (\<lambda>x. py_mod x m) values;
                 xs_extended = map (\<lambda>x. x - m) xs_mod @ xs_mod @ map (\<lambda>x. x + m) xs_mod
             in case plot_kde score (NdArray sh xs_extended) 0 m kern bandwidth (n_samples + 1) of
                  Inl e \<Rightarrow> Inl e
                | Inr (kde_xs, kde_ys) \<Rightarrow> Inr (butlast kde_xs, butlast kde_ys)))"

text \<open>
  The circular density curve in the words of the specification: every remainder
  replicated with the shifts \<open>-modulo\<close>, \<open>0\<close> and \<open>+modulo\<close>, the estimator fitted on
  that, with a bandwidth of 3 percent of the width \<open>modulo\<close> unless one is given, and
  read at the first \<open>n\<close> of the \<open>n + 1\<close> evenly spaced points \<open>0, modulo/n, ..., modulo\<close>.
\<close>

definition circular_density_spec ::
  "estimator \<Rightarrow> real list \<Rightarrow> real \<Rightarrow> string \<Rightarrow> real option \<Rightarrow> nat \<Rightarrow> real list \<times> real list" where
  "circular_density_spec score rs m kern bandwidth n =
     (let extended = map (\<lambda>r. py_mod r m - m) rs @ map (\<lambda>r. py_mod r m) rs
                       @ map (\<lambda>r. py_mod r m + m) rs;
          h = (case bandwidth of None \<Rightarrow> 3 / 100 * m | Some b \<Rightarrow> b);
          points = take n (map (\<lambda>i. of_nat i * m / of_nat n) [0..<n + 1])
      in (points, map (\<lambda>x. exp (score kern h extended x)) points))"

section \<open>The density curve, the embedding and the point likelihood of a pattern\<close>

text \<open>
  \<open>kde\<close> looks the sample count up in the cache and computes and stores the curve when
  it is missing; an exception in \<open>plot_kde_modulo\<close> leaves the pattern as it was. It
  always passes \<open>modulo=1\<close> and the default kernel and bandwidth, and it passes
  \<open>self.remainders\<close>, which is a Python list.
\<close>

definition kde ::
  "estimator \<Rightarrow> ModuloPattern \<Rightarrow> int \<Rightarrow> error + ((real list \<times> real list) \<times> ModuloPattern)" where
  "kde score p dm =
     (case map_of (kde_cache p) dm of
        Some curve \<Rightarrow> Inr (curve, p)
      | None \<Rightarrow>
          (case plot_kde_modulo score (PyList (remainders p)) 1 ''gaussian'' None dm of
             Inl e \<Rightarrow> Inl e
           | Inr curve \<Rightarrow> Inr (curve, p\<lparr>kde_cache := kde_cache p @ [(dm, curve)]\<rparr>)))"

definition vector :: "estimator \<Rightarrow> ModuloPattern \<Rightarrow> error + (pyvec \<times> ModuloPattern)" where
  "vector score p =
     (if int (length (elems (vector_cache p))) \<noteq> vector_dimension p then
        (case kde score p (vector_dimension p) of
           Inl e \<Rightarrow> Inl e
         | Inr ((kde_xs, kde_ys), p1) \<Rightarrow>
             let vector_length = sqrt (sum_list (map (\<lambda>elem. elem ^ 2) kde_ys));
                 vec = TupleVec (map (\<lambda>elem. elem / vector_length) kde_ys)
             in Inr (vec, p1\<lparr>vector_cache := vec\<rparr>))
      else Inr (vector_cache p, p))"

text \<open>\<open>bisect.bisect_left\<close>: the binary search of the standard library.\<close>

function bisect_loop :: "real list \<Rightarrow> real \<Rightarrow> nat \<Rightarrow> nat \<Rightarrow> nat" where
  "bisect_loop a x lo hi =
     (if lo < hi then
        (let mid = (lo + hi) div 2
         in if a ! mid < x then bisect_loop a x (mid + 1) hi else bisect_loop a x lo mid)
      else lo)"
  by pat_completeness auto
termination
  by (relation "measure (\<lambda>(a, x, lo, hi). hi - lo)") auto

definition bisect_left :: "real list \<Rightarrow> real \<Rightarrow> nat" where
  "bisect_left a x = bisect_loop a x 0 (length a)"

text \<open>
  \<open>likelihood\<close> takes \<open>divmod(value, self.modulo)\<close> of its float argument and then calls
  \<open>self.kde()\<close> three times, in the order of evaluation: for the search, for the length,
  for the value read. An unusable modulo, an empty curve and an index beyond the values
  raise.
\<close>

definition likelihood :: "estimator \<Rightarrow> ModuloPattern \<Rightarrow> real \<Rightarrow> error + (real \<times> ModuloPattern)" where
  "likelihood score p v =
     (case py_divmod (PyFloat v) (modulo p) of
        Inl e \<Rightarrow> Inl e
      | Inr (quo, remainder) \<Rightarrow>
          (case kde score p 1000 of
             Inl e \<Rightarrow> Inl e
           | Inr (c1, p1) \<Rightarrow>
               (case kde score p1 1000 of
                  Inl e \<Rightarrow> Inl e
                | Inr (c2, p2) \<Rightarrow>
                    if length (fst c2) = 0 then Inl ZeroDivisionError
                    else
                      let idx = bisect_left (fst c1) remainder mod length (fst c2)
                      in (case kde score p2 1000 of
                            Inl e \<Rightarrow> Inl e
                          | Inr (c3, p3) \<Rightarrow>
                              if idx < length (snd c3) then Inr (snd c3 ! idx, p3)
                              else Inl IndexError))))"

section \<open>datetime\<close>

text \<open>
  The standard library's \<open>datetime\<close>, as far as the phase functions use it: the fields,
  the proleptic Gregorian ordinal with its inverse, \<open>weekday\<close>, differences in seconds,
  the POSIX timestamp, and the range checks of \<open>replace\<close> and of adding days.
  \<open>tzinfo\<close> is the offset from UTC in seconds, \<open>None\<close> for a naive value.
\<close>

record datetime =
  dt_year :: int
  dt_month :: int
  dt_day :: int
  dt_hour :: int
  dt_minute :: int
  dt_second :: int
  dt_microsecond :: int
  tzinfo :: "int option"

definition is_leap :: "int \<Rightarrow> bool" where
  "is_leap y = (y mod 4 = 0 \<and> (y mod 100 \<noteq> 0 \<or> y mod 400 = 0))"

definition days_before_month_table :: "int list" where
  "days_before_month_table = [0, 31, 59, 90, 120, 151, 181, 212, 243, 273, 304, 334]"

definition days_in_month_table :: "int list" where
  "days_in_month_table = [31, 28, 31, 30, 31, 30, 31, 31, 30, 31, 30, 31]"

definition days_in_month :: "int \<Rightarrow> int \<Rightarrow> int" where
  "days_in_month y m =
     (if m = 2 \<and> is_leap y then 29 else days_in_month_table ! nat (m - 1))"

definition days_before_year :: "int \<Rightarrow> int" where
  "days_before_year y = (y - 1) * 365 + (y - 1) div 4 - (y - 1) div 100 + (y - 1) div 400"

definition days_before_month :: "int \<Rightarrow> int \<Rightarrow> int" where
  "days_before_month y m =
     days_before_month_table ! nat (m - 1) + (if 2 < m \<and> is_leap y then 1 else 0)"

definition ymd2ord :: "int \<Rightarrow> int \<Rightarrow> int \<Rightarrow> int" where
  "ymd2ord y m d = days_before_year y + days_before_month y m + d"

definition ord2ymd :: "int \<Rightarrow> int \<times> int \<times> int" where
  "ord2ymd n0 =
     (let n = n0 - 1;
          n400 = n div 146097; n = n mod 146097;
          n100 = n div 36524; n = n mod 36524;
          n4 = n div 1461; n = n mod 1461;
          n1 = n div 365; n = n mod 365;
          y = n400 * 400 + 1 + n100 * 100 + n4 * 4 + n1
      in if n1 = 4 \<or> n100 = 4 then (y - 1, 12, 31)
         else
           let leapyear = (n1 = 3 \<and> (n4 \<noteq> 24 \<or> n100 = 3));
               month = (n + 50) div 32;
               preceding = days_before_month_table ! nat (month - 1)
                             + (if 2 < month \<and> leapyear then 1 else 0)
           in if n < preceding then
                let month' = month - 1;
                    preceding' = preceding - (days_in_month_table ! nat (month' - 1)
                                   + (if month' = 2 \<and> leapyear then 1 else 0))
                in (y, month', n - preceding' + 1)
              else (y, month, n - preceding + 1))"

definition MAXORDINAL :: int where
  "MAXORDINAL = 3652059"

definition valid_datetime :: "datetime \<Rightarrow> bool" where
  "valid_datetime t =
     (1 \<le> dt_year t \<and> dt_year t \<le> 9999 \<and> 1 \<le> dt_month t \<and> dt_month t \<le> 12
      \<and> 1 \<le> dt_day t \<and> dt_day t \<le> days_in_month (dt_year t) (dt_month t)
      \<and> 0 \<le> dt_hour t \<and> dt_hour t < 24 \<and> 0 \<le> dt_minute t \<and> dt_minute t < 60
      \<and> 0 \<le> dt_second t \<and> dt_second t < 60
      \<and> 0 \<le> dt_microsecond t \<and> dt_microsecond t < 1000000)"

definition toordinal :: "datetime \<Rightarrow> int" where
  "toordinal t = ymd2ord (dt_year t) (dt_month t) (dt_day t)"

definition weekday :: "datetime \<Rightarrow> int" where
  "weekday t = (toordinal t + 6) mod 7"

text \<open>Seconds on the wall clock since the start of ordinal day 0.\<close>

definition wall_seconds :: "datetime \<Rightarrow> real" where
  "wall_seconds t =
     of_int (toordinal t * 86400 + dt_hour t * 3600 + dt_minute t * 60 + dt_second t)
       + of_int (dt_microsecond t) / 1000000"

definition utcoffset :: "datetime \<Rightarrow> int" where
  "utcoffset t = (case tzinfo t of None \<Rightarrow> 0 | Some off \<Rightarrow> off)"

text \<open>
  \<open>(a - b).total_seconds()\<close>, for two naive values or two aware ones. The source only
  subtracts a value and a \<open>replace\<close>d copy of it, which share the zone.
\<close>

definition total_seconds_between :: "datetime \<Rightarrow> datetime \<Rightarrow> real" where
  "total_seconds_between a b =
     (wall_seconds a - of_int (utcoffset a)) - (wall_seconds b - of_int (utcoffset b))"

text \<open>
  \<open>t.timestamp()\<close> of an aware value: the seconds since 1970-01-01T00:00:00+00:00,
  whose ordinal is 719163. For a naive value Python asks the host for its local zone;
  \<open>add\<close> and \<open>likelihood\<close> only ever call it after \<open>replace(tzinfo=utc)\<close>, and the
  model reads a naive value as UTC.
\<close>

definition posix_timestamp :: "datetime \<Rightarrow> real" where
  "posix_timestamp t = wall_seconds t - of_int (utcoffset t) - 719163 * 86400"

text \<open>\<open>replace(year=y)\<close> checks the range of the year.\<close>

definition replace_year :: "datetime \<Rightarrow> int \<Rightarrow> error + datetime" where
  "replace_year t y = (if 1 \<le> y \<and> y \<le> 9999 then Inr (t\<lparr>dt_year := y\<rparr>) else Inl ValueError)"

text \<open>\<open>t + timedelta(days=k)\<close>: the date moves through its ordinal, which has to stay in range.\<close>

definition add_days :: "datetime \<Rightarrow> int \<Rightarrow> error + datetime" where
  "add_days t k =
     (let n = toordinal t + k
      in if 1 \<le> n \<and> n \<le> MAXORDINAL then
           (case ord2ymd n of (y, m, d) \<Rightarrow> Inr (t\<lparr>dt_year := y, dt_month := m, dt_day := d\<rparr>))
         else Inl OverflowError)"

section \<open>The calendar phase functions\<close>

definition days_of_week :: "string list" where
  "days_of_week = [''Monday'', ''Tuesday'', ''Wednesday'', ''Thursday'', ''Friday'',
                   ''Saturday'', ''Sunday'']"

definition timestamp_hour_of_day_of_week_of_month :: "datetime \<Rightarrow> int \<times> int \<times> int \<times> string" where
  "timestamp_hour_of_day_of_week_of_month timestamp =
     (let n = ((dt_day timestamp + 1) div 7) + 1;
          full_week = (dt_day timestamp + 6 - weekday timestamp) div 7;
          day_of_week = days_of_week ! nat (weekday timestamp)
      in (dt_hour timestamp, n, full_week, day_of_week))"

definition timestamp_day :: "datetime \<Rightarrow> real" where
  "timestamp_day timestamp =
     (let start = timestamp\<lparr>dt_hour := 0, dt_minute := 0, dt_second := 0, dt_microsecond := 0\<rparr>;
          day_fraction = total_seconds_between timestamp start / 86400;
          day_since_epoch = \<lfloor>posix_timestamp timestamp / 86400\<rfloor>
      in of_int day_since_epoch + day_fraction)"

definition timestamp_week :: "datetime \<Rightarrow> real" where
  "timestamp_week timestamp =
     (let quo = \<lfloor>timestamp_day timestamp\<rfloor>;
          remainder = timestamp_day timestamp - of_int quo;
          week_fraction = (of_int (weekday timestamp) + remainder) / 7;
          week_since_epoch = (quo + 3) div 7
      in of_int week_since_epoch + week_fraction)"

definition timestamp_two_week :: "datetime \<Rightarrow> real" where
  "timestamp_two_week timestamp =
     (let quo = \<lfloor>timestamp_day timestamp\<rfloor>;
          remainder = timestamp_day timestamp - of_int quo;
          two_week_fraction = (of_int ((quo + 3) mod 14) + remainder) / 14;
          two_week_since_epoch = (quo + 3) div 14
      in of_int two_week_since_epoch + two_week_fraction)"

definition timestamp_month :: "datetime \<Rightarrow> error + real" where
  "timestamp_month timestamp =
     (let start = timestamp\<lparr>dt_day := 1, dt_hour := 0, dt_minute := 0, dt_second := 0,
                            dt_microsecond := 0\<rparr>
      in case add_days start 35 of
           Inl e \<Rightarrow> Inl e
         | Inr later \<Rightarrow>
             let end_dt = later\<lparr>dt_day := 1\<rparr>;
                 month_fraction = total_seconds_between timestamp start
                                    / total_seconds_between end_dt start;
                 month_since_epoch = (dt_year timestamp - 1970) * 12 + dt_month timestamp - 1
             in Inr (of_int month_since_epoch + month_fraction))"

definition timestamp_n_month :: "datetime \<Rightarrow> int \<Rightarrow> error + real" where
  "timestamp_n_month timestamp n =
     (case timestamp_month timestamp of
        Inl e \<Rightarrow> Inl e
      | Inr v \<Rightarrow>
          if n = 0 then Inl ZeroDivisionError
          else
            let quo = \<lfloor>v\<rfloor>;
                remainder = v - of_int quo;
                n_month_fraction = (of_int (quo mod n) + remainder) / of_int n;
                n_month_since_epoch = quo div n
            in Inr (of_int n_month_since_epoch + n_month_fraction))"

definition timestamp_year :: "datetime \<Rightarrow> error + real" where
  "timestamp_year timestamp =
     (let start = timestamp\<lparr>dt_month := 1, dt_day := 1, dt_hour := 0, dt_minute := 0,
                            dt_second := 0, dt_microsecond := 0\<rparr>
      in case replace_year start (dt_year timestamp + 1) of
           Inl e \<Rightarrow> Inl e
         | Inr end_dt \<Rightarrow>
             let year_fraction = total_seconds_between timestamp start
                                   / total_seconds_between end_dt start;
                 year_since_epoch = dt_year timestamp - 1970
             in Inr (of_int year_since_epoch + year_fraction))"

definition timestamp_n_year :: "datetime \<Rightarrow> int \<Rightarrow> error + real" where
  "timestamp_n_year timestamp n =
     (case timestamp_year timestamp of
        Inl e \<Rightarrow> Inl e
      | Inr v \<Rightarrow>
          if n = 0 then Inl ZeroDivisionError
          else
            let quo = \<lfloor>v\<rfloor>;
                remainder = v - of_int quo;
                n_year_fraction = (of_int (quo mod n) + remainder) / of_int n;
                n_year_since_epoch = quo div n
            in Inr (of_int n_year_since_epoch + n_year_fraction))"

section \<open>TimeStampSetV2\<close>

text \<open>
  The set holds the log of timestamps, three dictionaries of the hour and day tables,
  and the nine patterns. Its methods \<open>add\<close>, \<open>vectors\<close>, \<open>likelihood\<close> and
  \<open>similarity\<close> carry the prefix \<open>tss_\<close> here, since \<open>ModuloPattern\<close> has methods
  of the same names.
\<close>

record TimeStampSetV2 =
  timestamps :: "datetime list"
  hour_day :: "((int \<times> string) \<times> nat set) list"
  n_day :: "((int \<times> string) \<times> nat set) list"
  n_week :: "((int \<times> string) \<times> nat set) list"
  day :: ModuloPattern
  week :: ModuloPattern
  two_week :: ModuloPattern
  month :: ModuloPattern
  two_month :: ModuloPattern
  three_month :: ModuloPattern
  six_month :: ModuloPattern
  year :: ModuloPattern
  two_year :: ModuloPattern

text \<open>
  \<open>__init__\<close>: the nine constructor calls, in order, with the arguments of the source
  (the defaults are \<open>vector_dimension=128\<close>, \<open>modulo=1\<close>, \<open>min_periods=4\<close>,
  \<open>min_items=12\<close>).
\<close>

definition month_labels :: "string list" where
  "month_labels = [''Jan'', ''Feb'', ''Mar'', ''Apr'', ''May'', ''Jun'',
                   ''Jul'', ''Aug'', ''Sep'', ''Oct'', ''Nov'', ''Dec'']"

definition week_labels :: "string list" where
  "week_labels = [''Mon'', ''Tue'', ''Wed'', ''Thu'', ''Fri'', ''Sat'', ''Sun'']"

definition TimeStampSetV2_init :: "exception + TimeStampSetV2" where
  "TimeStampSetV2_init =
     (case ModuloPattern_new (PyStr ''day'')
             (Some [''1am'', ''2am'', ''3am'', ''4am'', ''5am'', ''6am'',
                    ''7am'', ''8am'', ''9am'', ''10am'', ''11am'', ''12nn'',
                    ''1pm'', ''2pm'', ''3pm'', ''4pm'', ''5pm'', ''6pm'',
                    ''7pm'', ''8pm'', ''9pm'', ''10pm'', ''11pm'', ''12mn''])
             (PyStr ''hour'') (PyInt 128) (IntNum 1) 0 12 of
        Inl e \<Rightarrow> Inl e | Inr p_day \<Rightarrow>
     (case ModuloPattern_new (PyStr ''week'') (Some week_labels) (PyStr ''day'') (PyInt 128) (IntNum 1) 4 12 of
        Inl e \<Rightarrow> Inl e | Inr p_week \<Rightarrow>
     (case ModuloPattern_new (PyStr ''fortnight'') (Some (week_labels @ week_labels))
             (PyStr ''day'') (PyInt 128) (IntNum 1) 12 12 of
        Inl e \<Rightarrow> Inl e | Inr p_two_week \<Rightarrow>
     (case ModuloPattern_new (PyStr ''month'') (Some [''early'', ''mid'', ''late''])
             (PyStr ''10-day period'') (PyInt 128) (IntNum 1) 4 12 of
        Inl e \<Rightarrow> Inl e | Inr p_month \<Rightarrow>
     (case ModuloPattern_new (PyStr ''2-month'') (Some [''Odd'', ''Even''])
             (PyStr ''month'') (PyInt 128) (IntNum 1) 6 12 of
        Inl e \<Rightarrow> Inl e | Inr p_two_month \<Rightarrow>
     (case ModuloPattern_new (PyStr ''quarter'')
             (Some [''Jan/May/Sep'', ''Feb/Jun/Oct'', ''Mar/Jul/Nov'', ''Apr/Aug/Dec''])
             (PyStr ''month'') (PyInt 128) (IntNum 1) 4 12 of
        Inl e \<Rightarrow> Inl e | Inr p_three_month \<Rightarrow>
     (case ModuloPattern_new (PyStr ''6-month'')
             (Some [''Jan/Jul'', ''Feb/Aug'', ''Mar/Sep'', ''Apr/Oct'', ''May/Nov'', ''Jun/Dec''])
             (PyStr ''month'') (PyInt 128) (IntNum 1) 4 24 of
        Inl e \<Rightarrow> Inl e | Inr p_six_month \<Rightarrow>
     (case ModuloPattern_new (PyStr ''year'') (Some month_labels)
             (PyStr ''month'') (PyInt 128) (IntNum 1) 4 (3 * 12) of
        Inl e \<Rightarrow> Inl e | Inr p_year \<Rightarrow>
     (case ModuloPattern_new (PyStr ''2-year'') (Some (month_labels @ month_labels))
             (PyStr ''month'') (PyInt 128) (IntNum 1) 4 (6 * 12) of
        Inl e \<Rightarrow> Inl e | Inr p_two_year \<Rightarrow>
          Inr \<lparr> timestamps = [], hour_day = [], n_day = [], n_week = [],
                day = p_day, week = p_week, two_week = p_two_week, month = p_month,
                two_month = p_two_month, three_month = p_three_month,
                six_month = p_six_month, year = p_year, two_year = p_two_year \<rparr>)))))))))"

text \<open>\<open>d.setdefault(k, set()).add(i)\<close>.\<close>

fun setdefault_add :: "'k \<Rightarrow> nat \<Rightarrow> ('k \<times> nat set) list \<Rightarrow> ('k \<times> nat set) list" where
  "setdefault_add k i [] = [(k, {i})]"
| "setdefault_add k i ((k', idxs) # rest) =
     (if k' = k then (k', insert i idxs) # rest else (k', idxs) # setdefault_add k i rest)"

text \<open>
  One line \<open>self.<pattern>.add(<phase>(timestamp))\<close> of \<open>add\<close>: the phase is computed,
  then handed to the pattern. An exception in either leaves the set as it is at that
  moment, with what the pattern's \<open>add\<close> had already written.
\<close>

definition route ::
  "(TimeStampSetV2 \<Rightarrow> ModuloPattern)
     \<Rightarrow> ((ModuloPattern \<Rightarrow> ModuloPattern) \<Rightarrow> TimeStampSetV2 \<Rightarrow> TimeStampSetV2)
     \<Rightarrow> error + real \<Rightarrow> TimeStampSetV2 \<Rightarrow> (error \<times> TimeStampSetV2) + TimeStampSetV2" where
  "route get upd phase s =
     (case phase of
        Inl e \<Rightarrow> Inl (e, s)
      | Inr v \<Rightarrow>
          (case add (get s) (PyFloat v) PyNone of
             Inl (e, p') \<Rightarrow> Inl (e, upd (\<lambda>_. p') s)
           | Inr p' \<Rightarrow> Inr (upd (\<lambda>_. p') s)))"

text \<open>Sequencing of statements: the next one runs unless the previous one raised.\<close>

definition and_then ::
  "('e \<times> 's) + 's \<Rightarrow> ('s \<Rightarrow> ('e \<times> 's) + 's) \<Rightarrow> ('e \<times> 's) + 's" where
  "and_then r f = (case r of Inl e \<Rightarrow> Inl e | Inr s \<Rightarrow> f s)"

text \<open>The body of the loop of \<open>add\<close>, for one timestamp.\<close>

definition tss_add_one :: "TimeStampSetV2 \<Rightarrow> datetime \<Rightarrow> (error \<times> TimeStampSetV2) + TimeStampSetV2" where
  "tss_add_one s t =
     (let timestamp = t\<lparr>tzinfo := Some 0\<rparr>;
          timestamp_idx = length (timestamps s);
          s1 = s\<lparr>timestamps := timestamps s @ [timestamp]\<rparr>
      in case timestamp_hour_of_day_of_week_of_month timestamp of
           (hour, n, full_week, day_of_week) \<Rightarrow>
             let s2 = s1\<lparr>hour_day := setdefault_add (hour, day_of_week) timestamp_idx (hour_day s1)\<rparr>;
                 s3 = s2\<lparr>n_day := setdefault_add (n, day_of_week) timestamp_idx (n_day s2)\<rparr>;
                 s4 = s3\<lparr>n_week := setdefault_add (full_week, day_of_week) timestamp_idx (n_week s3)\<rparr>
             in and_then (and_then (and_then (and_then (and_then (and_then (and_then (and_then
                  (route day day_update (Inr (timestamp_day timestamp)) s4)
                  (route week week_update (Inr (timestamp_week timestamp))))
                  (route two_week two_week_update (Inr (timestamp_two_week timestamp))))
                  (route month month_update (timestamp_n_month timestamp 1)))
                  (route two_month two_month_update (timestamp_n_month timestamp 2)))
                  (route three_month three_month_update (timestamp_n_month timestamp 3)))
                  (route six_month six_month_update (timestamp_n_month timestamp 6)))
                  (route year year_update (timestamp_n_year timestamp 1)))
                  (route two_year two_year_update (timestamp_n_year timestamp 2)))"

text \<open>\<open>add(*timestamps)\<close>: the loop stops at the first exception.\<close>

fun tss_add :: "TimeStampSetV2 \<Rightarrow> datetime list \<Rightarrow> (error \<times> TimeStampSetV2) + TimeStampSetV2" where
  "tss_add s [] = Inr s"
| "tss_add s (t # ts) = and_then (tss_add_one s t) (\<lambda>s'. tss_add s' ts)"

text \<open>
  The nine pattern attributes, each with the function that reads it and the function
  that writes it, in the order of the list in \<open>_patterns\<close>.
\<close>

type_synonym slot =
  "(TimeStampSetV2 \<Rightarrow> ModuloPattern)
     \<times> ((ModuloPattern \<Rightarrow> ModuloPattern) \<Rightarrow> TimeStampSetV2 \<Rightarrow> TimeStampSetV2)"

definition slots :: "slot list" where
  "slots = [(day, day_update), (week, week_update), (two_week, two_week_update),
            (month, month_update), (two_month, two_month_update),
            (three_month, three_month_update), (six_month, six_month_update),
            (year, year_update), (two_year, two_year_update)]"

text \<open>\<open>_patterns\<close>: the attributes whose pattern is valid.\<close>

fun valid_slots :: "slot list \<Rightarrow> TimeStampSetV2 \<Rightarrow> error + slot list" where
  "valid_slots [] s = Inr []"
| "valid_slots (sl # rest) s =
     (case is_valid (fst sl s) of
        Inl e \<Rightarrow> Inl e
      | Inr b \<Rightarrow>
          (case valid_slots rest s of
             Inl e \<Rightarrow> Inl e
           | Inr r \<Rightarrow> Inr (if b then sl # r else r)))"

definition tss_patterns :: "TimeStampSetV2 \<Rightarrow> error + slot list" where
  "tss_patterns s = valid_slots slots s"

text \<open>\<open>d[k] = v\<close> on a dictionary kept in insertion order.\<close>

fun dict_set :: "'k \<Rightarrow> 'v \<Rightarrow> ('k \<times> 'v) list \<Rightarrow> ('k \<times> 'v) list" where
  "dict_set k v [] = [(k, v)]"
| "dict_set k v ((k', v') # rest) =
     (if k' = k then (k', v) # rest else (k', v') # dict_set k v rest)"

text \<open>
  \<open>vectors\<close>: the comprehension over \<open>_patterns\<close> with its second validity test. Reading
  \<open>vector\<close> fills the caches of the pattern, which is written back to the set. A failing
  query returns the error alone: all it can have written by then are cache entries.
\<close>

fun vectors_loop ::
  "estimator \<Rightarrow> slot list \<Rightarrow> TimeStampSetV2 \<Rightarrow> (string \<times> pyvec) list
     \<Rightarrow> error + ((string \<times> pyvec) list \<times> TimeStampSetV2)" where
  "vectors_loop score [] s acc = Inr (acc, s)"
| "vectors_loop score (sl # rest) s acc =
     (case is_valid (fst sl s) of
        Inl e \<Rightarrow> Inl e
      | Inr b \<Rightarrow>
          if b then
            (case vector score (fst sl s) of
               Inl e \<Rightarrow> Inl e
             | Inr (vec, p') \<Rightarrow>
                 vectors_loop score rest (snd sl (\<lambda>_. p') s) (dict_set (name (fst sl s)) vec acc))
          else vectors_loop score rest s acc)"

definition tss_vectors ::
  "estimator \<Rightarrow> TimeStampSetV2 \<Rightarrow> error + ((string \<times> pyvec) list \<times> TimeStampSetV2)" where
  "tss_vectors score s =
     (case tss_patterns s of
        Inl e \<Rightarrow> Inl e
      | Inr valid \<Rightarrow> vectors_loop score valid s [])"

definition dot_product :: "pyvec \<Rightarrow> pyvec \<Rightarrow> real" where
  "dot_product vec_1 vec_2 = sum_list (map (\<lambda>(x, y). x * y) (zip (elems vec_1) (elems vec_2)))"

fun similarity_loop ::
  "(string \<times> pyvec) list \<Rightarrow> (string \<times> pyvec) list \<Rightarrow> real list \<Rightarrow> real list" where
  "similarity_loop [] other_vectors similarities = similarities"
| "similarity_loop ((nm, vec) # rest) other_vectors similarities =
     (case map_of other_vectors nm of
        Some other_vec \<Rightarrow>
          similarity_loop rest other_vectors (similarities @ [dot_product vec other_vec])
      | None \<Rightarrow> similarity_loop rest other_vectors similarities)"

text \<open>
  \<open>similarity\<close>: \<open>other.vectors\<close> is read first, then \<open>self.vectors\<close>. The result comes
  with the two sets, whose caches the reads may have filled. \<open>x ** 0.1\<close> is \<open>powr\<close>,
  which agrees with Python on the non-negative numbers.
\<close>

definition tss_similarity ::
  "estimator \<Rightarrow> TimeStampSetV2 \<Rightarrow> TimeStampSetV2
     \<Rightarrow> error + ((real \<times> nat) \<times> TimeStampSetV2 \<times> TimeStampSetV2)" where
  "tss_similarity score self other =
     (case tss_vectors score other of
        Inl e \<Rightarrow> Inl e
      | Inr (other_vectors, other') \<Rightarrow>
          (case tss_vectors score self of
             Inl e \<Rightarrow> Inl e
           | Inr (self_vectors, self') \<Rightarrow>
               let similarities = similarity_loop self_vectors other_vectors []
               in if length similarities = 0 then Inr ((0, 0), self', other')
                  else Inr (((sum_list (map (\<lambda>x. x powr (1 / 10)) similarities)
                               / of_nat (length similarities)) ^ 10,
                             length similarities), self', other')))"

text \<open>
  \<open>sorted(timestamps)\<close>: Python refuses to compare a naive value with an aware one; two
  aware values compare by their instant, two naive ones by their fields. The sort is
  stable.
\<close>

definition sort_instant :: "datetime \<Rightarrow> real" where
  "sort_instant t = wall_seconds t - of_int (utcoffset t)"

definition sorted_timestamps :: "datetime list \<Rightarrow> error + datetime list" where
  "sorted_timestamps ts =
     (if 2 \<le> length ts \<and> list_ex (\<lambda>t. tzinfo t = None) ts \<and> list_ex (\<lambda>t. tzinfo t \<noteq> None) ts
      then Inl TypeError
      else Inr (sort_key sort_instant ts))"

text \<open>One entry \<open>self.<pattern>.likelihood(<phase>(timestamp))\<close> of the list built per timestamp.\<close>

definition query ::
  "estimator \<Rightarrow> (TimeStampSetV2 \<Rightarrow> ModuloPattern)
     \<Rightarrow> ((ModuloPattern \<Rightarrow> ModuloPattern) \<Rightarrow> TimeStampSetV2 \<Rightarrow> TimeStampSetV2)
     \<Rightarrow> error + real \<Rightarrow> real list \<times> TimeStampSetV2 \<Rightarrow> error + (real list \<times> TimeStampSetV2)" where
  "query score get upd phase st =
     (case phase of
        Inl e \<Rightarrow> Inl e
      | Inr v \<Rightarrow>
          (case likelihood score (get (snd st)) v of
             Inl e \<Rightarrow> Inl e
           | Inr (x, p') \<Rightarrow> Inr (fst st @ [x], upd (\<lambda>_. p') (snd st))))"

definition bind_e :: "'e + 'a \<Rightarrow> ('a \<Rightarrow> 'e + 'b) \<Rightarrow> 'e + 'b" where
  "bind_e r f = (case r of Inl e \<Rightarrow> Inl e | Inr x \<Rightarrow> f x)"

definition likelihood_row ::
  "estimator \<Rightarrow> TimeStampSetV2 \<Rightarrow> datetime \<Rightarrow> error + (real list \<times> TimeStampSetV2)" where
  "likelihood_row score s t =
     (let timestamp = t\<lparr>tzinfo := Some 0\<rparr>
      in bind_e (bind_e (bind_e (bind_e (bind_e (bind_e (bind_e (bind_e
           (query score day day_update (Inr (timestamp_day timestamp)) ([], s))
           (query score week week_update (Inr (timestamp_week timestamp))))
           (query score two_week two_week_update (Inr (timestamp_two_week timestamp))))
           (query score month month_update (timestamp_n_month timestamp 1)))
           (query score two_month two_month_update (timestamp_n_month timestamp 2)))
           (query score three_month three_month_update (timestamp_n_month timestamp 3)))
           (query score six_month six_month_update (timestamp_n_month timestamp 6)))
           (query score year year_update (timestamp_n_year timestamp 1)))
           (query score two_year two_year_update (timestamp_n_year timestamp 2)))"

fun likelihood_loop ::
  "estimator \<Rightarrow> TimeStampSetV2 \<Rightarrow> datetime list \<Rightarrow> real list list
     \<Rightarrow> error + (real list list \<times> TimeStampSetV2)" where
  "likelihood_loop score s [] timestamps_likelihoods = Inr (timestamps_likelihoods, s)"
| "likelihood_loop score s (t # ts) timestamps_likelihoods =
     (case likelihood_row score s t of
        Inl e \<Rightarrow> Inl e
      | Inr (row, s') \<Rightarrow> likelihood_loop score s' ts (timestamps_likelihoods @ [row]))"

text \<open>
  \<open>likelihood(*timestamps)\<close>: sort, collect one row of nine point likelihoods per
  timestamp, then map every row to \<open>(sum(x ** 0.1 for x in xs) / len(xs)) ** 10\<close>.
\<close>

definition tss_likelihood ::
  "estimator \<Rightarrow> TimeStampSetV2 \<Rightarrow> datetime list \<Rightarrow> error + (real list \<times> TimeStampSetV2)" where
  "tss_likelihood score s ts =
     (case sorted_timestamps ts of
        Inl e \<Rightarrow> Inl e
      | Inr sorted_ts \<Rightarrow>
          (case likelihood_loop score s sorted_ts [] of
             Inl e \<Rightarrow> Inl e
           | Inr (rows, s') \<Rightarrow>
               if list_ex (\<lambda>xs. length xs = 0) rows then Inl ZeroDivisionError
               else Inr (map (\<lambda>xs. (sum_list (map (\<lambda>x. x powr (1 / 10)) xs)
                                       / of_nat (length xs)) ^ 10) rows, s')))"

section \<open>Notions used to state the properties\<close>

text \<open>
  Two patterns hold the same data when they differ at most in their caches.
\<close>

definition data_eq :: "ModuloPattern \<Rightarrow> ModuloPattern \<Rightarrow> bool" where
  "data_eq p p' = (p'\<lparr>kde_cache := [], vector_cache := TupleVec []\<rparr>
                     = p\<lparr>kde_cache := [], vector_cache := TupleVec []\<rparr>)"

text \<open>
  A modulo by which a float can be divided: not zero and, if it is an int, within the
  range of the floats. A pattern is in a float state when it has such a modulo and its
  \<open>min\<close> and \<open>max\<close> are floats, which is the case for a pattern that has only been
  handed floats; its \<open>n_periods\<close> then cannot raise.
\<close>

fun float_divisor :: "pynum \<Rightarrow> bool" where
  "float_divisor (IntNum i) = (i \<noteq> 0 \<and> \<bar>of_int i\<bar> < float_limit)"
| "float_divisor (FloatNum r) = (r \<noteq> 0)"

fun is_float :: "pybound \<Rightarrow> bool" where
  "is_float (FloatBound x) = True"
| "is_float (IntBound i) = False"

definition float_state :: "ModuloPattern \<Rightarrow> bool" where
  "float_state p = (float_divisor (modulo p) \<and> is_float (min_fld p) \<and> is_float (max_fld p))"




text \<open>
  The nine patterns of a set in the order of \<open>_patterns\<close>, and the names
  \<open>__init__\<close> gives them. A set is well formed when its patterns carry these names,
  are in a float state and have a positive vector dimension, as \<open>__init__\<close> leaves them
  and \<open>add\<close> keeps them.
\<close>

definition all_patterns :: "TimeStampSetV2 \<Rightarrow> ModuloPattern list" where
  "all_patterns s = map (\<lambda>sl. fst sl s) slots"

definition pattern_names :: "string list" where
  "pattern_names = [''day'', ''week'', ''fortnight'', ''month'', ''2-month'', ''quarter'',
                    ''6-month'', ''year'', ''2-year'']"

definition wf_set :: "TimeStampSetV2 \<Rightarrow> bool" where
  "wf_set s = (map name (all_patterns s) = pattern_names
               \<and> list_all (\<lambda>p. float_state p \<and> 0 < vector_dimension p) (all_patterns s))"

text \<open>
  \<open>valid p\<close>: \<open>is_valid\<close> returns \<open>True\<close>. \<open>valid_indices\<close> are the positions of the valid
  patterns of a set. \<open>vec_of\<close> is the vector that \<open>vector\<close> returns, if it returns one, and
  \<open>collect\<close> is one step of the comprehension of \<open>vectors\<close>.
\<close>

definition valid :: "ModuloPattern \<Rightarrow> bool" where
  "valid p = (is_valid p = Inr True)"

definition valid_indices :: "TimeStampSetV2 \<Rightarrow> nat list" where
  "valid_indices s = filter (\<lambda>j. valid (all_patterns s ! j)) [0..<9]"

definition vec_of :: "estimator \<Rightarrow> ModuloPattern \<Rightarrow> pyvec option" where
  "vec_of score p = (case vector score p of Inl e \<Rightarrow> None | Inr (v, p') \<Rightarrow> Some v)"

definition collect ::
  "estimator \<Rightarrow> TimeStampSetV2 \<Rightarrow> (string \<times> pyvec) list \<Rightarrow> nat \<Rightarrow> (string \<times> pyvec) list" where
  "collect score s acc j =
     (if valid (all_patterns s ! j)
      then dict_set (name (all_patterns s ! j)) (the (vec_of score (all_patterns s ! j))) acc
      else acc)"

definition vectors_fail :: "estimator \<Rightarrow> TimeStampSetV2 \<Rightarrow> bool" where
  "vectors_fail score s =
     list_ex (\<lambda>j. vec_of score (all_patterns s ! j) = None) (valid_indices s)"

text \<open>
  The dot products that \<open>similarity\<close> combines: one for every attribute whose
  pattern is valid in both sets, of the two vectors that \<open>vector\<close> returns. And the sets
  whose patterns have empty caches.
\<close>

definition common_similarities :: "estimator \<Rightarrow> TimeStampSetV2 \<Rightarrow> TimeStampSetV2 \<Rightarrow> real list" where
  "common_similarities score a b =
     map (\<lambda>j. dot_product (the (vec_of score (all_patterns a ! j)))
                             (the (vec_of score (all_patterns b ! j))))
       (filter (\<lambda>j. valid (all_patterns a ! j) \<and> valid (all_patterns b ! j)) [0..<9])"

definition no_caches :: "TimeStampSetV2 \<Rightarrow> bool" where
  "no_caches s = list_all (\<lambda>p. kde_cache p = [] \<and> elems (vector_cache p) = []) (all_patterns s)"

text \<open>
  The nine phase values that \<open>add\<close> and \<open>likelihood\<close> compute for a timestamp, in
  the order of the nine patterns; how many values each of the nine patterns holds; and a
  timestamp without its zone.
\<close>

definition nine_phases :: "datetime \<Rightarrow> (error + real) list" where
  "nine_phases t =
     [Inr (timestamp_day t), Inr (timestamp_week t), Inr (timestamp_two_week t),
      timestamp_n_month t 1, timestamp_n_month t 2, timestamp_n_month t 3, timestamp_n_month t 6,
      timestamp_n_year t 1, timestamp_n_year t 2]"

definition received_counts :: "TimeStampSetV2 \<Rightarrow> nat list" where
  "received_counts s = map (\<lambda>p. length (remainders p)) (all_patterns s)"

definition wall_clock :: "datetime \<Rightarrow> datetime" where
  "wall_clock t = t\<lparr>tzinfo := None\<rparr>"

section \<open>Example values\<close>

text \<open>
  The closed examples below need a concrete estimator. This is the Gaussian kernel
  density estimate (the kernel the patterns ask for), as a log density: the mean of the
  normal densities of standard deviation \<open>h\<close> centred at the data.
\<close>

definition gaussian_score :: estimator where
  "gaussian_score kern h xs x =
     ln (sum_list (map (\<lambda>d. exp (- (((x - d) / h)\<^sup>2) / 2) / sqrt (2 * pi)) xs)
           / (of_nat (length xs) * h))"

text \<open>Several calls of \<open>add\<close> in a row, each with the default \<open>item=None\<close>.\<close>

fun add_values :: "ModuloPattern \<Rightarrow> pyval list \<Rightarrow> (error \<times> ModuloPattern) + ModuloPattern" where
  "add_values p [] = Inr p"
| "add_values p (v # vs) = and_then (add p v PyNone) (\<lambda>p'. add_values p' vs)"

text \<open>\<open>ModuloPattern(name='week')\<close>, freshly constructed.\<close>

definition week_pattern :: ModuloPattern where
  "week_pattern =
     \<lparr> name = ''week'', x_axis_labels = None, x_axis_name = None, vector_dimension = 128,
       modulo = IntNum 1, min_periods = 4, min_items = 12, min_fld = FloatBound PInf,
       max_fld = FloatBound NInf,
       remainders = [], p_remainders = [], p_quotients = [], kde_cache = [],
       vector_cache = ListVec [] \<rparr>"

text \<open>The same pattern after \<open>add(0.5)\<close>.\<close>

definition half_pattern :: ModuloPattern where
  "half_pattern =
     week_pattern\<lparr> min_fld := FloatBound (Fin (1 / 2)), max_fld := FloatBound (Fin (1 / 2)),
                   remainders := [1 / 2],
                   p_remainders := [(1 / 2, [PyNone])], p_quotients := [(0, [PyNone])],
                   vector_cache := TupleVec [] \<rparr>"


text \<open>
  The set that \<open>TimeStampSetV2()\<close> returns, and some timestamps: the first one of the
  source's own sample data, midnight of the first day of the year 9999, and one instant
  written in two zones (23:30 UTC is 00:30 of the next day at UTC+1).
\<close>

definition tss_empty :: TimeStampSetV2 where
  "tss_empty = projr TimeStampSetV2_init"

definition sample_timestamp :: datetime where
  "sample_timestamp = \<lparr> dt_year = 2020, dt_month = 1, dt_day = 1, dt_hour = 12, dt_minute = 23,
                          dt_second = 0, dt_microsecond = 0, tzinfo = None \<rparr>"

definition last_year_timestamp :: datetime where
  "last_year_timestamp = \<lparr> dt_year = 9999, dt_month = 1, dt_day = 1, dt_hour = 0, dt_minute = 0,
                          dt_second = 0, dt_microsecond = 0, tzinfo = None \<rparr>"

definition utc_evening :: datetime where
  "utc_evening = \<lparr> dt_year = 2020, dt_month = 1, dt_day = 1, dt_hour = 23, dt_minute = 30,
                          dt_second = 0, dt_microsecond = 0, tzinfo = Some 0 \<rparr>"

definition cet_after_midnight :: datetime where
  "cet_after_midnight = \<lparr> dt_year = 2020, dt_month = 1, dt_day = 2, dt_hour = 0, dt_minute = 30,
                          dt_second = 0, dt_microsecond = 0, tzinfo = Some 3600 \<rparr>"

text \<open>
  The evening timestamp with the zone label of UTC+1 on the same wall-clock fields; the
  set after \<open>add(sample_timestamp)\<close>; the set after adding that timestamp twelve
  times, which makes the \<open>day\<close> pattern valid; and the set after adding the evening
  timestamp twelve times.
\<close>

definition relabelled_evening :: datetime where
  "relabelled_evening = utc_evening\<lparr>tzinfo := Some 3600\<rparr>"

definition tss_one :: TimeStampSetV2 where
  "tss_one = projr (tss_add_one tss_empty sample_timestamp)"

definition tss_twelve :: TimeStampSetV2 where
  "tss_twelve = projr (tss_add tss_empty (replicate 12 sample_timestamp))"

definition tss_evening :: TimeStampSetV2 where
  "tss_evening = projr (tss_add tss_empty (replicate 12 utc_evening))"

section \<open>Properties of ModuloPattern\<close>

subsection \<open>consecutive\<close>

text \<open>
  Claim C1. For the quotient values 1, 2, 3, 5, 6, 9 and \<open>min_length=2\<close> the
  specification expects the runs \<open>[[1,2,3],[5,6]]\<close>. The code returns \<open>[[1,2,3]]\<close>: when
  a run ends, the key that ends it is dropped instead of starting the next buffer, and
  the buffer that is open when the loop ends is never appended.
\<close>

theorem consecutive_loses_second_run:
  "ModuloPattern_new (PyStr ''week'') None PyNone (PyInt 128) (IntNum 1) 4 12 = Inr week_pattern
   \<and> (\<exists>p. add_values week_pattern [PyInt 1, PyInt 2, PyInt 3, PyInt 5, PyInt 6, PyInt 9] = Inr p
          \<and> sort (map fst (p_quotients p)) = [1, 2, 3, 5, 6, 9]
          \<and> consecutive p 2 = [[1, 2, 3]])"
  by (simp add: ModuloPattern_new_def week_pattern_def add_def and_then_def Let_def
      consecutive_def)

subsection \<open>Construction\<close>

text \<open>
  Claim C9, as the code has it. Construction fails at once, with one of Python's own
  exceptions: for an empty name \<open>ValueError\<close> whose argument is the name; for a zero
  modulo, once the name and the axis name have passed, \<open>ValueError\<close> with the message
  \<open>modulo must not be zero\<close>; for a vector dimension that is not a positive integer, once
  the rest has passed, \<open>TypeError\<close> with a message that ends in the dimension. Whatever
  is raised is a \<open>TypeError\<close> or a \<open>ValueError\<close>. With a non-empty name, an axis name
  that is \<open>None\<close> or a string, a non-zero modulo and a positive integer dimension the
  construction succeeds and stores the parameters in an empty pattern.
\<close>

theorem construction_fails_fast:
  "ModuloPattern_new (PyStr []) labels xname vdim m minp mini = Inl (ValueError, Value (PyStr []))
   \<and> (s \<noteq> [] \<and> (xname = PyNone \<or> (\<exists>x. xname = PyStr x)) \<and> pynum_value m = 0 \<longrightarrow>
        ModuloPattern_new (PyStr s) labels xname vdim m minp mini
          = Inl (ValueError, Message ''modulo must not be zero''))
   \<and> (s \<noteq> [] \<and> (xname = PyNone \<or> (\<exists>x. xname = PyStr x)) \<and> pynum_value m \<noteq> 0
        \<and> (\<forall>d. vdim = PyInt d \<longrightarrow> d \<le> 0) \<longrightarrow>
        ModuloPattern_new (PyStr s) labels xname vdim m minp mini
          = Inl (TypeError, Formatted ''vector dimension must be a positive integer, got '' vdim))
   \<and> ((pynum_value m = 0 \<or> (\<forall>d. vdim = PyInt d \<longrightarrow> d \<le> 0)) \<longrightarrow>
        (\<exists>e. ModuloPattern_new nm labels xname vdim m minp mini = Inl e))
   \<and> (case ModuloPattern_new nm labels xname vdim m minp mini of
         Inl (e, a) \<Rightarrow> e = TypeError \<or> e = ValueError
       | Inr p \<Rightarrow> True)
   \<and> (s \<noteq> [] \<and> (xname = PyNone \<or> (\<exists>x. xname = PyStr x)) \<and> pynum_value m \<noteq> 0 \<and> 0 < d \<longrightarrow>
        (\<exists>p. ModuloPattern_new (PyStr s) labels xname (PyInt d) m minp mini = Inr p
           \<and> name p = s \<and> vector_dimension p = d \<and> modulo p = m
           \<and> min_periods p = minp \<and> min_items p = mini
           \<and> remainders p = [] \<and> p_quotients p = [] \<and> p_remainders p = []
           \<and> min_fld p = FloatBound PInf \<and> max_fld p = FloatBound NInf))"
  by (auto simp add: ModuloPattern_new_def split: pyval.splits)

theorem construction_fails_fast_witness:
  "ModuloPattern_new (PyStr ''week'') None PyNone (PyInt 128) (IntNum 0) 4 12
       = Inl (ValueError, Message ''modulo must not be zero'')
   \<and> ModuloPattern_new (PyStr ''week'') None PyNone (PyInt 0) (IntNum 1) 4 12
       = Inl (TypeError, Formatted ''vector dimension must be a positive integer, got '' (PyInt 0))
   \<and> ModuloPattern_new (PyStr ''week'') None PyNone (PyFloat 128) (IntNum 1) 4 12
       = Inl (TypeError,
              Formatted ''vector dimension must be a positive integer, got '' (PyFloat 128))
   \<and> (\<exists>p. ModuloPattern_new (PyStr ''week'') None PyNone (PyInt 128) (IntNum 1) 4 12 = Inr p
         \<and> name p = ''week'' \<and> vector_dimension p = 128 \<and> modulo p = IntNum 1)"
proof -
  note c = construction_fails_fast [where labels = None and xname = PyNone and minp = 4
      and mini = 12 and s = "''week''" and d = 128 and nm = "PyStr ''week''"]
  from c [where vdim = "PyInt 128" and m = "IntNum 0"]
  have 1: "ModuloPattern_new (PyStr ''week'') None PyNone (PyInt 128) (IntNum 0) 4 12
             = Inl (ValueError, Message ''modulo must not be zero'')"
    by simp
  from c [where vdim = "PyInt 0" and m = "IntNum 1"]
  have 2: "ModuloPattern_new (PyStr ''week'') None PyNone (PyInt 0) (IntNum 1) 4 12
             = Inl (TypeError,
                    Formatted ''vector dimension must be a positive integer, got '' (PyInt 0))"
    by simp
  from c [where vdim = "PyFloat 128" and m = "IntNum 1"]
  have 3: "ModuloPattern_new (PyStr ''week'') None PyNone (PyFloat 128) (IntNum 1) 4 12
             = Inl (TypeError,
                    Formatted ''vector dimension must be a positive integer, got '' (PyFloat 128))"
    "\<exists>p. ModuloPattern_new (PyStr ''week'') None PyNone (PyInt 128) (IntNum 1) 4 12 = Inr p
         \<and> name p = ''week'' \<and> vector_dimension p = 128 \<and> modulo p = IntNum 1"
    by auto
  from 1 2 3 show ?thesis by simp
qed

text \<open>
  The claim as stated, a descriptive configuration error, fails for the empty name. The
  source has no configuration error class, and \<open>raise ValueError(self.name)\<close> raises
  with the name itself as the only argument: for the empty name that is the empty string,
  so the message of the exception is empty.
\<close>

theorem empty_name_error_has_empty_message:
  "ModuloPattern_new (PyStr []) None PyNone (PyInt 128) (IntNum 1) 4 12
     = Inl (ValueError, Value (PyStr []))"
  by (simp add: ModuloPattern_new_def)

subsection \<open>add: rejected values\<close>

text \<open>
  Claim C7, as the code has it. A value that is not a number makes \<open>add\<close> raise
  \<open>TypeError\<close> at \<open>min(value, self.min)\<close>. By then the two caches have been reset,
  \<open>__kde\<close> to an empty dictionary and \<open>__vector\<close> to the empty tuple, and nothing else
  has been written: \<open>min\<close>, \<open>max\<close>, the remainders and the two indices are those of
  before the call.
\<close>

theorem add_rejects_non_numeric:
  assumes "\<not> is_numeric v"
  shows "add p v item = Inl (TypeError, p\<lparr>kde_cache := [], vector_cache := TupleVec []\<rparr>)"
  using assms by (cases v) (simp_all add: add_def)

theorem add_rejects_non_numeric_witness:
  "\<not> is_numeric (PyStr ''noon'')
   \<and> add half_pattern (PyStr ''noon'') PyNone
       = Inl (TypeError, half_pattern\<lparr>kde_cache := [], vector_cache := TupleVec []\<rparr>)"
  using add_rejects_non_numeric [of "PyStr ''noon''" half_pattern PyNone] by simp

text \<open>
  The claim as stated, that no field at all is written, fails already on a freshly
  constructed pattern: its \<open>__vector\<close> is the empty list before the rejected call and
  the empty tuple after it.
\<close>

theorem add_rejected_value_resets_vector:
  "ModuloPattern_new (PyStr ''week'') None PyNone (PyInt 128) (IntNum 1) 4 12 = Inr week_pattern
   \<and> vector_cache week_pattern = ListVec []
   \<and> add week_pattern (PyStr ''noon'') PyNone
       = Inl (TypeError, week_pattern\<lparr>vector_cache := TupleVec []\<rparr>)
   \<and> week_pattern\<lparr>vector_cache := TupleVec []\<rparr> \<noteq> week_pattern"
  by (simp add: ModuloPattern_new_def week_pattern_def add_def)

subsection \<open>add: validity is monotone for a positive modulo and values within the floats\<close>


lemma float_limit_ge: "2 ^ 1023 \<le> float_limit"
proof -
  have "(2::real) ^ 970 \<le> 2 ^ 1023" by (rule power_increasing) simp_all
  moreover have "(2::real) ^ 1024 = 2 * 2 ^ 1023" by simp
  ultimately show ?thesis by (simp add: float_limit_def)
qed

















text \<open>
  The bound on the ints is needed as well. An unbounded int is accepted by \<open>add\<close> and
  stored in \<open>max\<close> as it is. With the default int modulo the pattern \<open>half_pattern\<close>,
  whose \<open>min\<close> is the float \<open>0.5\<close>, takes \<open>10 ** 400\<close>, and from then on \<open>n_periods\<close>
  and \<open>is_valid\<close> raise \<open>OverflowError\<close> at \<open>self.max - self.min\<close>. With a float
  modulo \<open>add\<close> itself raises \<open>OverflowError\<close> at \<open>divmod\<close>, after \<open>min\<close> and \<open>max\<close>
  have been written.
\<close>

lemma huge_int_raises_overflow:
  "n_periods half_pattern = Inr (Fin 0)
   \<and> add half_pattern (PyInt (10 ^ 400)) PyNone
       = Inr (half_pattern\<lparr> max_fld := IntBound (10 ^ 400), remainders := [1 / 2, 0],
                p_remainders := [(1 / 2, [PyNone]), (0, [PyNone])],
                p_quotients := [(0, [PyNone]), (10 ^ 400, [PyNone])] \<rparr>)
   \<and> n_periods (half_pattern\<lparr> max_fld := IntBound (10 ^ 400), remainders := [1 / 2, 0],
                p_remainders := [(1 / 2, [PyNone]), (0, [PyNone])],
                p_quotients := [(0, [PyNone]), (10 ^ 400, [PyNone])] \<rparr>)
       = Inl OverflowError
   \<and> is_valid (half_pattern\<lparr> max_fld := IntBound (10 ^ 400), remainders := [1 / 2, 0],
                p_remainders := [(1 / 2, [PyNone]), (0, [PyNone])],
                p_quotients := [(0, [PyNone]), (10 ^ 400, [PyNone])] \<rparr>)
       = Inl OverflowError
   \<and> add (half_pattern\<lparr>modulo := FloatNum (1 / 2)\<rparr>) (PyInt (10 ^ 400)) PyNone
       = Inl (OverflowError,
              half_pattern\<lparr>modulo := FloatNum (1 / 2), max_fld := IntBound (10 ^ 400)\<rparr>)"
  by (simp add: half_pattern_def week_pattern_def n_periods_def is_valid_def add_def Let_def
      py_max_def bound_min_def bound_max_def float_of_int_def float_limit_def float_divmod_def)

section \<open>Properties of the circular density curve\<close>

text \<open>
  For a non-empty column array, a positive sample count, a positive modulo, one of the
  kernels of the library and a positive bandwidth, \<open>plot_kde_modulo\<close> returns the curve
  of the specification, and that curve has as many points as asked for.
\<close>

lemma plot_kde_modulo_column:
  assumes "0 < n" and "0 < m" and "rs \<noteq> []" and "kern \<in> set kernels"
    and "case bandwidth of None \<Rightarrow> True | Some b \<Rightarrow> 0 < b"
  shows "plot_kde_modulo score (NdArray Column rs) m kern bandwidth (int n)
           = Inr (circular_density_spec score rs m kern bandwidth n)"
proof -
  have pts: "butlast (linspace 0 m (nat (int n + 1)))
               = take n (map (\<lambda>i. of_nat i * m / of_nat n) [0..<n + 1])"
    by (simp add: linspace_def butlast_conv_take nat_add_distrib del: upt_Suc)
  have bw: "(case bandwidth of None \<Rightarrow> (m - 0) * 0.03 | Some b \<Rightarrow> b)
              = (case bandwidth of None \<Rightarrow> 3 / 100 * m | Some b \<Rightarrow> b)"
    by (simp split: option.split)
  have bp: "\<not> (case bandwidth of None \<Rightarrow> 3 / 100 * m | Some b \<Rightarrow> b) \<le> 0"
    using assms(2,5) by (cases bandwidth) simp_all
  have ext: "map (\<lambda>x. x - m) (map (\<lambda>x. py_mod x m) rs) @ map (\<lambda>x. py_mod x m) rs
                @ map (\<lambda>x. x + m) (map (\<lambda>x. py_mod x m) rs)
             = map (\<lambda>r. py_mod r m - m) rs @ map (\<lambda>r. py_mod r m) rs
                @ map (\<lambda>r. py_mod r m + m) rs"
    by (simp add: comp_def)
  have ne: "map (\<lambda>r. py_mod r m - m) rs @ map (\<lambda>r. py_mod r m) rs
              @ map (\<lambda>r. py_mod r m + m) rs \<noteq> []"
    using assms(3) by simp
  have fit: "KernelDensity_fit kern (case bandwidth of None \<Rightarrow> 3 / 100 * m | Some b \<Rightarrow> b)
               (NdArray Column (map (\<lambda>r. py_mod r m - m) rs @ map (\<lambda>r. py_mod r m) rs
                  @ map (\<lambda>r. py_mod r m + m) rs))
             = Inr (map (\<lambda>r. py_mod r m - m) rs @ map (\<lambda>r. py_mod r m) rs
                  @ map (\<lambda>r. py_mod r m + m) rs)"
    unfolding KernelDensity_fit_def using assms(4) bp ne by simp
  have pos: "0 < int n" "(0::int) < int n + 1"
    using assms(1) by simp_all
  show ?thesis
    unfolding plot_kde_modulo_def plot_kde_def circular_density_spec_def Let_def pyseq.case ext bw
      fit
    using assms(2) pos pts
    by (simp add: map_butlast [symmetric] del: upt_Suc)
qed

lemma circular_density_spec_length:
  "length (fst (circular_density_spec score rs m kern bandwidth n)) = n"
  "length (snd (circular_density_spec score rs m kern bandwidth n)) = n"
  by (simp_all add: circular_density_spec_def Let_def)

text \<open>
  Claim C4. The specification expects the circular density curve for every sequence of
  remainders. On the code the curve of a pattern is never computed: \<open>kde\<close> hands
  \<open>self.remainders\<close>, a Python list, to \<open>plot_kde_modulo\<close>, whose first step
  \<open>xs % modulo\<close> raises \<open>TypeError\<close> for a list. Here the pattern holds the one value
  \<open>0.5\<close>, and is asked for the curve of \<open>likelihood\<close> (1000 samples) and for that of
  \<open>vector\<close> (128 samples). The flat array \<open>np.array(self.remainders)\<close> would not do
  either: \<open>KernelDensity.fit\<close> wants a two-dimensional array and raises \<open>ValueError\<close>.
\<close>

theorem density_curve_raises_type_error:
  "ModuloPattern_new (PyStr ''week'') None PyNone (PyInt 128) (IntNum 1) 4 12 = Inr week_pattern
   \<and> add week_pattern (PyFloat (1 / 2)) PyNone = Inr half_pattern
   \<and> remainders half_pattern = [1 / 2]
   \<and> plot_kde_modulo score (PyList [1 / 2]) 1 ''gaussian'' None 1000 = Inl TypeError
   \<and> kde score half_pattern 1000 = Inl TypeError
   \<and> kde score half_pattern 128 = Inl TypeError
   \<and> plot_kde_modulo score (NdArray Flat [1 / 2]) 1 ''gaussian'' None 1000 = Inl ValueError"
  by (simp add: ModuloPattern_new_def week_pattern_def half_pattern_def add_def Let_def
      bound_min_def bound_max_def float_of_int_def float_limit_def float_divmod_def
      kde_def plot_kde_modulo_def plot_kde_def KernelDensity_fit_def kernels_def)

text \<open>
  A Python list is rejected, so \<open>kde\<close> raises \<open>TypeError\<close> whenever the sample count
  is not in its cache, and \<open>vector\<close> either raises \<open>TypeError\<close> or returns a vector and
  changes nothing but caches.
\<close>

lemma plot_kde_modulo_list:
  "plot_kde_modulo score (PyList rs) m kern bandwidth n
     = (if 0 < n then Inl TypeError else Inl AssertionError)"
  by (simp add: plot_kde_modulo_def)

lemma kde_miss:
  assumes "map_of (kde_cache p) d = None"
  shows "kde score p d = (if 0 < d then Inl TypeError else Inl AssertionError)"
  using assms by (simp add: kde_def plot_kde_modulo_list)

lemma kde_hit:
  assumes "map_of (kde_cache p) d = Some c"
  shows "kde score p d = Inr (c, p)"
  using assms by (simp add: kde_def)

lemma data_eq_refl: "data_eq p p"
  by (simp add: data_eq_def)

lemma data_eq_trans: "data_eq p q \<Longrightarrow> data_eq q r \<Longrightarrow> data_eq p r"
  by (simp add: data_eq_def)

lemma data_eq_fields:
  assumes "data_eq p p'"
  shows "remainders p' = remainders p" "modulo p' = modulo p" "name p' = name p"
    "vector_dimension p' = vector_dimension p" "min_periods p' = min_periods p"
    "min_items p' = min_items p" "min_fld p' = min_fld p" "max_fld p' = max_fld p"
proof -
  from assms have e: "p'\<lparr>kde_cache := [], vector_cache := TupleVec []\<rparr>
             = p\<lparr>kde_cache := [], vector_cache := TupleVec []\<rparr>"
    by (simp add: data_eq_def)
  from arg_cong [OF e, of remainders] show "remainders p' = remainders p" by simp
  from arg_cong [OF e, of modulo] show "modulo p' = modulo p" by simp
  from arg_cong [OF e, of name] show "name p' = name p" by simp
  from arg_cong [OF e, of vector_dimension] show "vector_dimension p' = vector_dimension p" by simp
  from arg_cong [OF e, of min_periods] show "min_periods p' = min_periods p" by simp
  from arg_cong [OF e, of min_items] show "min_items p' = min_items p" by simp
  from arg_cong [OF e, of min_fld] show "min_fld p' = min_fld p" by simp
  from arg_cong [OF e, of max_fld] show "max_fld p' = max_fld p" by simp
qed

lemma data_eq_valid: "data_eq p p' \<Longrightarrow> valid p' = valid p"
  using data_eq_fields [of p p']
  by (simp add: valid_def is_valid_def n_periods_def cong: sum.case_cong)

lemma vector_outcome:
  assumes "0 < vector_dimension p"
  shows "vector score p = Inl TypeError \<or> (\<exists>v p'. vector score p = Inr (v, p') \<and> data_eq p p')"
proof (cases "int (length (elems (vector_cache p))) = vector_dimension p")
  case True
  then show ?thesis by (simp add: vector_def data_eq_refl)
next
  case False
  show ?thesis
  proof (cases "map_of (kde_cache p) (vector_dimension p)")
    case None
    with False assms show ?thesis by (simp add: vector_def kde_miss)
  next
    case (Some c)
    obtain xs ys where c: "c = (xs, ys)" by (cases c)
    with False Some show ?thesis
      by (simp add: vector_def kde_hit Let_def data_eq_def)
  qed
qed

lemma vec_of_cases:
  assumes "0 < vector_dimension p"
  shows "(vec_of score p = None \<and> vector score p = Inl TypeError)
         \<or> (\<exists>v p'. vec_of score p = Some v \<and> vector score p = Inr (v, p') \<and> data_eq p p')"
  using vector_outcome [OF assms, of score] by (auto simp add: vec_of_def)

lemma py_divmod_float:
  assumes "float_divisor m"
  shows "\<exists>quo remainder. py_divmod (PyFloat v) m = Inr (quo, remainder)"
  using assms by (cases m) (simp_all add: float_of_int_def float_divmod_def)

lemma add_float_length:
  assumes "float_divisor (modulo p)"
  shows "\<exists>p'. add p (PyFloat v) PyNone = Inr p'
           \<and> length (remainders p') = Suc (length (remainders p))"
proof -
  from py_divmod_float [OF assms, of v] obtain quo remainder where
    "py_divmod (PyFloat v) (modulo p) = Inr (quo, remainder)" by blast
  then show ?thesis by (simp add: add_def Let_def)
qed

lemma add_float:
  assumes "float_divisor (modulo p)"
  shows "\<exists>p'. add p (PyFloat v) PyNone = Inr p'"
  using add_float_length [OF assms, of v] by blast

lemma add_length:
  assumes "add p v item = Inr p'"
  shows "length (remainders p') = Suc (length (remainders p))"
  using assms by (auto simp add: add_def Let_def split: option.splits sum.splits)

lemma add_keeps:
  assumes "add p v item = Inr p'"
  shows "name p' = name p" "modulo p' = modulo p" "vector_dimension p' = vector_dimension p"
    "min_periods p' = min_periods p" "min_items p' = min_items p"
    "kde_cache p' = []" "vector_cache p' = TupleVec []"
  using assms by (auto simp add: add_def Let_def split: option.splits sum.splits)

lemma add_float_state:
  assumes "float_state p" "add p (PyFloat v) item = Inr p'"
  shows "float_state p'"
proof -
  from assms(2) have "modulo p' = modulo p"
    "min_fld p' = bound_min (FloatBound (Fin v)) (min_fld p)"
    "max_fld p' = bound_max (FloatBound (Fin v)) (max_fld p)"
    by (auto simp add: add_def Let_def split: sum.splits)
  with assms(1) show ?thesis
    by (simp add: float_state_def bound_min_def bound_max_def)
qed

lemma n_periods_float_state:
  assumes "float_state p"
  shows "\<exists>n. n_periods p = Inr n"
proof -
  from assms obtain x y where f: "max_fld p = FloatBound x" "min_fld p = FloatBound y"
    by (cases "max_fld p"; cases "min_fld p") (simp_all add: float_state_def)
  from assms have "float_divisor (modulo p)" by (simp add: float_state_def)
  then obtain r where "pynum_to_float (modulo p) = Inr r" "r \<noteq> 0"
    by (cases "modulo p") (simp_all add: float_of_int_def)
  with f show ?thesis by (simp add: n_periods_def)
qed

section \<open>The nine patterns of a set\<close>

lemma length_slots: "length slots = 9"
  by (simp add: slots_def)

lemma length_all_patterns: "length (all_patterns s) = 9"
  by (simp add: all_patterns_def length_slots)

lemma nine_cases:
  assumes "j < (9::nat)"
  obtains "j = 0" | "j = 1" | "j = 2" | "j = 3" | "j = 4" | "j = 5" | "j = 6" | "j = 7" | "j = 8"
  using assms by linarith

lemma slot_get: "j < 9 \<Longrightarrow> fst (slots ! j) s = all_patterns s ! j"
  by (simp add: all_patterns_def length_slots)

lemma slot_put:
  assumes "j < 9"
  shows "all_patterns (snd (slots ! j) f s) = (all_patterns s)[j := f (all_patterns s ! j)]"
  using assms
  by (cases j rule: nine_cases) (simp_all add: all_patterns_def slots_def)

lemma is_valid_total: "float_state p \<Longrightarrow> is_valid p = Inr (valid p)"
  using n_periods_float_state [of p] by (auto simp add: valid_def is_valid_def)

lemma valid_slots_filter:
  assumes "list_all (\<lambda>sl. float_state (fst sl s)) sls"
  shows "valid_slots sls s = Inr (filter (\<lambda>sl. valid (fst sl s)) sls)"
  using assms
  by (induction sls) (simp_all add: is_valid_total)

lemma list_all2_data_eq_refl: "list_all2 data_eq ps ps"
  by (simp add: list_all2_refl data_eq_refl)

lemma list_all2_data_eq_trans:
  "list_all2 data_eq ps qs \<Longrightarrow> list_all2 data_eq qs rs \<Longrightarrow> list_all2 data_eq ps rs"
  by (rule list_all2_trans [of data_eq data_eq data_eq]) (auto intro: data_eq_trans)

lemma valid_indices_bound: "list_all (\<lambda>j. j < 9) (valid_indices s)"
  by (simp add: valid_indices_def list_all_iff)

lemma valid_indices_distinct: "distinct (valid_indices s)"
  by (simp add: valid_indices_def)

lemma tss_patterns_eq:
  assumes "list_all float_state (all_patterns s)"
  shows "tss_patterns s = Inr (map ((!) slots) (valid_indices s))"
proof -
  have m: "list_all (\<lambda>sl. float_state (fst sl s)) slots"
    using assms by (simp add: all_patterns_def list_all_iff)
  have sl: "slots = map ((!) slots) [0..<9]"
    using map_nth [of slots] by (simp add: length_slots)
  have "filter (\<lambda>sl. valid (fst sl s)) (map ((!) slots) [0..<9])
          = map ((!) slots) (filter (\<lambda>j. valid (all_patterns s ! j)) [0..<9])"
  proof -
    have "filter (\<lambda>j. valid (fst (slots ! j) s)) [0..<9]
            = filter (\<lambda>j. valid (all_patterns s ! j)) [0..<9]"
      by (rule filter_cong) (simp_all add: slot_get)
    then show ?thesis by (simp add: filter_map comp_def)
  qed
  then have "filter (\<lambda>sl. valid (fst sl s)) slots = map ((!) slots) (valid_indices s)"
    using sl by (simp add: valid_indices_def)
  with valid_slots_filter [OF m] show ?thesis
    by (simp add: tss_patterns_def)
qed

lemma dict_set_fresh: "k \<notin> fst ` set acc \<Longrightarrow> dict_set k v acc = acc @ [(k, v)]"
  by (induction acc) auto

lemma foldl_dict_set_fresh:
  assumes "distinct (map k js)" "set (map k js) \<inter> fst ` set acc = {}"
  shows "foldl (\<lambda>a j. dict_set (k j) (v j) a) acc js = acc @ map (\<lambda>j. (k j, v j)) js"
  using assms
proof (induction js arbitrary: acc)
  case Nil
  then show ?case by simp
next
  case (Cons j js)
  then have f: "k j \<notin> fst ` set acc" by auto
  have "set (map k js) \<inter> fst ` set (acc @ [(k j, v j)]) = {}"
    using Cons.prems by auto
  with Cons.IH [of "acc @ [(k j, v j)]"] Cons.prems(1) f show ?case
    by (simp add: dict_set_fresh)
qed

lemma distinct_pattern_names: "distinct pattern_names"
  by (simp add: pattern_names_def)

lemma length_pattern_names: "length pattern_names = 9"
  by (simp add: pattern_names_def)

lemma wf_name: "wf_set s \<Longrightarrow> j < 9 \<Longrightarrow> name (all_patterns s ! j) = pattern_names ! j"
proof -
  assume w: "wf_set s" and j: "j < 9"
  then have "map name (all_patterns s) ! j = pattern_names ! j" by (simp add: wf_set_def)
  with j show ?thesis by (simp add: length_all_patterns)
qed

lemma wf_pattern:
  assumes "wf_set s" "j < 9"
  shows "float_state (all_patterns s ! j)" "0 < vector_dimension (all_patterns s ! j)"
  using assms by (simp_all add: wf_set_def list_all_length length_all_patterns)

lemma wf_states: "wf_set s \<Longrightarrow> list_all float_state (all_patterns s)"
  by (simp add: wf_set_def list_all_iff)

lemma wf_moduli: "wf_set s \<Longrightarrow> list_all (\<lambda>p. float_divisor (modulo p)) (all_patterns s)"
  by (simp add: wf_set_def list_all_iff float_state_def)

lemma wf_set_data_eq:
  assumes "wf_set s" "list_all2 data_eq (all_patterns s) (all_patterns s')"
  shows "wf_set s'"
proof -
  have e: "\<And>j. j < 9 \<Longrightarrow> data_eq (all_patterns s ! j) (all_patterns s' ! j)"
    using assms(2) by (simp add: list_all2_conv_all_nth length_all_patterns)
  have "map name (all_patterns s') = map name (all_patterns s)"
  proof (rule nth_equalityI)
    show "length (map name (all_patterns s')) = length (map name (all_patterns s))"
      by (simp add: length_all_patterns)
  next
    fix i assume "i < length (map name (all_patterns s'))"
    then have i: "i < 9" by (simp add: length_all_patterns)
    from data_eq_fields(3) [OF e [OF i]] i
    show "map name (all_patterns s') ! i = map name (all_patterns s) ! i"
      by (simp add: length_all_patterns)
  qed
  moreover have "list_all (\<lambda>p. float_state p \<and> 0 < vector_dimension p) (all_patterns s')"
  proof -
    have "\<And>i. i < 9 \<Longrightarrow> float_state (all_patterns s' ! i)
                      \<and> 0 < vector_dimension (all_patterns s' ! i)"
    proof -
      fix i :: nat assume i: "i < 9"
      from data_eq_fields(2,4,7,8) [OF e [OF i]] wf_pattern [OF assms(1) i]
      show "float_state (all_patterns s' ! i) \<and> 0 < vector_dimension (all_patterns s' ! i)"
        by (simp add: float_state_def)
    qed
    then show ?thesis by (simp add: list_all_length length_all_patterns)
  qed
  ultimately show ?thesis using assms(1) by (simp add: wf_set_def)
qed

lemma distinct_names_of_indices:
  assumes "distinct js" "list_all (\<lambda>j. j < 9) js"
  shows "distinct (map ((!) pattern_names) js)"
proof -
  have "inj_on ((!) pattern_names) {..<9}"
    using distinct_pattern_names length_pattern_names
    by (auto simp add: inj_on_def distinct_conv_nth)
  moreover have "set js \<subseteq> {..<9}" using assms(2) by (auto simp add: list_all_iff)
  ultimately show ?thesis using assms(1)
    by (simp add: distinct_map inj_on_subset)
qed

lemma vectors_loop_gen:
  assumes "distinct js" "list_all (\<lambda>j. j < 9) js" "wf_set s"
  shows "if list_ex (\<lambda>j. valid (all_patterns s ! j) \<and> vec_of score (all_patterns s ! j) = None) js
         then vectors_loop score (map ((!) slots) js) s acc = Inl TypeError
         else (\<exists>s'. vectors_loop score (map ((!) slots) js) s acc
                       = Inr (foldl (collect score s) acc js, s')
                   \<and> list_all2 data_eq (all_patterns s) (all_patterns s'))"
  using assms
proof (induction js arbitrary: s acc)
  case Nil
  then show ?case by (simp add: list_all2_data_eq_refl)
next
  case (Cons j js)
  then have j: "j < 9" and js: "list_all (\<lambda>j. j < 9) js" and d: "distinct js" "j \<notin> set js"
    by simp_all
  let ?p = "all_patterns s ! j"
  have iv: "is_valid (fst (slots ! j) s) = Inr (valid ?p)"
    using j wf_pattern(1) [OF Cons.prems(3) j] by (simp add: slot_get is_valid_total)
  show ?case
  proof (cases "valid ?p")
    case False
    then have c: "collect score s acc j = acc" by (simp add: collect_def)
    from Cons.IH [OF d(1) js Cons.prems(3), of acc] False iv c show ?thesis
      by (auto split: if_splits)
  next
    case True
    from vec_of_cases [OF wf_pattern(2) [OF Cons.prems(3) j], of score]
    show ?thesis
    proof (elim disjE conjE exE)
      assume "vec_of score ?p = None" "vector score ?p = Inl TypeError"
      with True iv j show ?thesis by (simp add: slot_get)
    next
      fix v p'
      assume v: "vec_of score ?p = Some v" "vector score ?p = Inr (v, p')" "data_eq ?p p'"
      let ?s1 = "snd (slots ! j) (\<lambda>_. p') s"
      have ap: "all_patterns ?s1 = (all_patterns s)[j := p']"
        using j by (simp add: slot_put)
      have same: "\<And>i. i \<in> set js \<Longrightarrow> all_patterns ?s1 ! i = all_patterns s ! i"
      proof -
        fix i assume "i \<in> set js"
        with d(2) have "j \<noteq> i" by auto
        then show "all_patterns ?s1 ! i = all_patterns s ! i"
          by (simp add: ap)
      qed
      have de1: "list_all2 data_eq (all_patterns s) (all_patterns ?s1)"
        using v(3) j
        by (auto simp add: ap list_all2_conv_all_nth nth_list_update data_eq_refl
            length_all_patterns)
      have w1: "wf_set ?s1" by (rule wf_set_data_eq [OF Cons.prems(3) de1])
      have c: "collect score s acc j = dict_set (name ?p) v acc"
        using True v(1) by (simp add: collect_def)
      have ex: "list_ex (\<lambda>i. valid (all_patterns ?s1 ! i) \<and> vec_of score (all_patterns ?s1 ! i) = None) js
                  = list_ex (\<lambda>i. valid (all_patterns s ! i) \<and> vec_of score (all_patterns s ! i) = None) js"
        using same by (auto simp add: list_ex_iff)
      have fo: "\<And>acc'. foldl (collect score ?s1) acc' js = foldl (collect score s) acc' js"
      proof -
        fix acc'
        have "\<And>a i. i \<in> set js \<Longrightarrow> collect score ?s1 a i = collect score s a i"
          using same by (simp add: collect_def)
        then show "foldl (collect score ?s1) acc' js = foldl (collect score s) acc' js"
          by (intro foldl_cong) auto
      qed
      have step: "vectors_loop score (map ((!) slots) (j # js)) s acc
                    = vectors_loop score (map ((!) slots) js) ?s1 (collect score s acc j)"
        using True iv v(2) j by (simp add: slot_get c)
      have nonej: "\<not> (valid ?p \<and> vec_of score ?p = None)" using v(1) by simp
      from Cons.IH [OF d(1) js w1, of "collect score s acc j"]
      show ?thesis
        unfolding step ex fo using nonej list_all2_data_eq_trans [OF de1]
        by (auto split: if_splits)
    qed
  qed
qed

lemma foldl_collect_valid:
  assumes w: "wf_set s"
  shows "foldl (collect score s) [] (valid_indices s)
           = map (\<lambda>j. (pattern_names ! j, the (vec_of score (all_patterns s ! j))))
               (valid_indices s)"
proof -
  have "\<And>a i. i \<in> set (valid_indices s) \<Longrightarrow>
          collect score s a i
            = dict_set (pattern_names ! i) (the (vec_of score (all_patterns s ! i))) a"
    by (simp add: valid_indices_def collect_def wf_name [OF w])
  then have "foldl (collect score s) [] (valid_indices s)
      = foldl (\<lambda>a j. dict_set (pattern_names ! j) (the (vec_of score (all_patterns s ! j))) a)
          [] (valid_indices s)"
    by (intro foldl_cong) auto
  moreover have "distinct (map ((!) pattern_names) (valid_indices s))"
    by (rule distinct_names_of_indices [OF valid_indices_distinct valid_indices_bound])
  ultimately show ?thesis
    using foldl_dict_set_fresh [of "(!) pattern_names" "valid_indices s" "[]"
            "\<lambda>j. the (vec_of score (all_patterns s ! j))"]
    by simp
qed

lemma tss_vectors_gen:
  assumes w: "wf_set s"
  shows "if vectors_fail score s then tss_vectors score s = Inl TypeError
         else (\<exists>s'. tss_vectors score s
                       = Inr (map (\<lambda>j. (pattern_names ! j, the (vec_of score (all_patterns s ! j))))
                                (valid_indices s), s')
                   \<and> list_all2 data_eq (all_patterns s) (all_patterns s'))"
proof -
  have ex: "list_ex (\<lambda>j. valid (all_patterns s ! j) \<and> vec_of score (all_patterns s ! j) = None)
              (valid_indices s) = vectors_fail score s"
    by (auto simp add: vectors_fail_def list_ex_iff valid_indices_def)
  have tv: "tss_vectors score s = vectors_loop score (map ((!) slots) (valid_indices s)) s []"
    using tss_patterns_eq [OF wf_states [OF w]] by (simp add: tss_vectors_def)
  from vectors_loop_gen [OF valid_indices_distinct [of s] valid_indices_bound [of s] w,
      where score = score and acc = "[]"]
  show ?thesis
    unfolding ex tv foldl_collect_valid [OF w] .
qed

lemma similarity_loop_eq:
  "similarity_loop sv ov acc
     = acc @ concat (map (\<lambda>(nm, vec). case map_of ov nm of
                                          Some other_vec \<Rightarrow> [dot_product vec other_vec]
                                        | None \<Rightarrow> []) sv)"
  by (induction sv ov acc rule: similarity_loop.induct) (simp_all split: option.split)

lemma map_of_names:
  assumes "list_all (\<lambda>j. j < 9) js" "j < 9"
  shows "map_of (map (\<lambda>i. (pattern_names ! i, f i)) js) (pattern_names ! j)
           = (if j \<in> set js then Some (f j) else None)"
  using assms(1)
proof (induction js)
  case Nil
  then show ?case by simp
next
  case (Cons i js)
  then have i: "i < 9" by simp
  have "pattern_names ! i = pattern_names ! j \<longleftrightarrow> i = j"
    using distinct_pattern_names length_pattern_names i assms(2)
    by (auto simp add: distinct_conv_nth)
  with Cons show ?case by auto
qed

lemma similarity_loop_indices:
  assumes "list_all (\<lambda>j. j < 9) ja" "list_all (\<lambda>j. j < 9) jb"
  shows "similarity_loop (map (\<lambda>j. (pattern_names ! j, ea j)) ja)
           (map (\<lambda>j. (pattern_names ! j, eb j)) jb) []
         = map (\<lambda>j. dot_product (ea j) (eb j)) (filter (\<lambda>j. j \<in> set jb) ja)"
  using assms(1)
  by (induction ja) (simp_all add: similarity_loop_eq map_of_names [OF assms(2)])

lemma dot_product_commute: "dot_product u v = dot_product v u"
proof -
  have "\<And>ys. map (\<lambda>(x, y). x * y) (zip xs ys) = map (\<lambda>(x, y). x * y) (zip ys xs)" for xs :: "real list"
  proof (induction xs)
    case Nil
    show ?case by simp
  next
    case (Cons x xs)
    show ?case by (cases ys) (simp_all add: Cons.IH mult.commute)
  qed
  then show ?thesis by (simp add: dot_product_def)
qed

lemma common_similarities_commute:
  "common_similarities score a b = common_similarities score b a"
proof -
  have "filter (\<lambda>j. valid (all_patterns a ! j) \<and> valid (all_patterns b ! j)) [0..<9]
          = filter (\<lambda>j. valid (all_patterns b ! j) \<and> valid (all_patterns a ! j)) [0..<9]"
    by (rule filter_cong) auto
  then show ?thesis
    by (simp add: common_similarities_def
        dot_product_commute [of "the (vec_of score (all_patterns a ! _))"] del: upt_Suc)
qed

lemma common_indices:
  "filter (\<lambda>j. j \<in> set (valid_indices b)) (valid_indices a)
     = filter (\<lambda>j. valid (all_patterns a ! j) \<and> valid (all_patterns b ! j)) [0..<9]"
  unfolding valid_indices_def filter_filter
  by (rule filter_cong) auto

lemma tss_similarity_gen:
  assumes a: "wf_set a" and b: "wf_set b"
  shows "if vectors_fail score a \<or> vectors_fail score b
         then tss_similarity score a b = Inl TypeError
         else (\<exists>a' b'. tss_similarity score a b
                  = Inr (if common_similarities score a b = [] then (0, 0)
                         else ((sum_list (map (\<lambda>x. x powr (1 / 10)) (common_similarities score a b))
                                  / of_nat (length (common_similarities score a b))) ^ 10,
                               length (common_similarities score a b)), a', b'))"
proof (cases "vectors_fail score b")
  case True
  with tss_vectors_gen [OF b, of score] show ?thesis
    by (simp add: tss_similarity_def)
next
  case fb: False
  with tss_vectors_gen [OF b, of score] obtain b' where
    b': "tss_vectors score b
           = Inr (map (\<lambda>j. (pattern_names ! j, the (vec_of score (all_patterns b ! j))))
                    (valid_indices b), b')"
    by auto
  show ?thesis
  proof (cases "vectors_fail score a")
    case True
    with tss_vectors_gen [OF a, of score] b' show ?thesis
      by (simp add: tss_similarity_def)
  next
    case fa: False
    with tss_vectors_gen [OF a, of score] obtain a' where
      a': "tss_vectors score a
             = Inr (map (\<lambda>j. (pattern_names ! j, the (vec_of score (all_patterns a ! j))))
                      (valid_indices a), a')"
      by auto
    have loop: "similarity_loop
        (map (\<lambda>j. (pattern_names ! j, the (vec_of score (all_patterns a ! j)))) (valid_indices a))
        (map (\<lambda>j. (pattern_names ! j, the (vec_of score (all_patterns b ! j)))) (valid_indices b))
        [] = common_similarities score a b"
      using similarity_loop_indices [OF valid_indices_bound valid_indices_bound]
      by (simp add: common_similarities_def common_indices)
    have "tss_similarity score a b
            = Inr (if common_similarities score a b = [] then (0, 0)
                   else ((sum_list (map (\<lambda>x. x powr (1 / 10)) (common_similarities score a b))
                            / of_nat (length (common_similarities score a b))) ^ 10,
                         length (common_similarities score a b)), a', b')"
      by (simp add: tss_similarity_def Let_def b' a' loop)
    with fa fb show ?thesis by auto
  qed
qed

section \<open>Construction of a set, and add\<close>

lemma init_ok: "TimeStampSetV2_init = Inr tss_empty"
proof -
  have "\<exists>s. TimeStampSetV2_init = Inr s"
    by (simp add: TimeStampSetV2_init_def ModuloPattern_new_def)
  then obtain s where e: "TimeStampSetV2_init = Inr s" by blast
  then have "projr TimeStampSetV2_init = s" by (metis sum.sel(2))
  with e show ?thesis by (simp add: tss_empty_def)
qed

lemma tss_empty_patterns:
  "map name (all_patterns tss_empty) = pattern_names"
  "list_all (\<lambda>p. modulo p = IntNum 1 \<and> vector_dimension p = 128 \<and> remainders p = []
       \<and> kde_cache p = [] \<and> vector_cache p = ListVec [] \<and> p_quotients p = []
       \<and> p_remainders p = [] \<and> min_fld p = FloatBound PInf \<and> max_fld p = FloatBound NInf)
     (all_patterns tss_empty)"
  "map min_periods (all_patterns tss_empty) = [0, 4, 12, 4, 6, 4, 4, 4, 4]"
  "map min_items (all_patterns tss_empty) = [12, 12, 12, 12, 12, 12, 24, 36, 72]"
  "timestamps tss_empty = []"
  by (simp_all add: tss_empty_def TimeStampSetV2_init_def ModuloPattern_new_def
      all_patterns_def slots_def pattern_names_def)

lemma float_limit_one: "1 < float_limit"
  using float_limit_ge by (simp add: order_less_le_trans)

lemma wf_set_empty: "wf_set tss_empty"
  using tss_empty_patterns(2) float_limit_one
  by (simp add: wf_set_def tss_empty_patterns(1) list_all_iff float_state_def)

lemma no_caches_empty: "no_caches tss_empty"
  using tss_empty_patterns(2) by (simp add: no_caches_def list_all_iff)

lemma tss_empty_moduli:
  "modulo (day tss_empty) = IntNum 1" "modulo (week tss_empty) = IntNum 1"
  "modulo (two_week tss_empty) = IntNum 1" "modulo (month tss_empty) = IntNum 1"
  "modulo (two_month tss_empty) = IntNum 1" "modulo (three_month tss_empty) = IntNum 1"
  "modulo (six_month tss_empty) = IntNum 1" "modulo (year tss_empty) = IntNum 1"
  "modulo (two_year tss_empty) = IntNum 1"
  using tss_empty_patterns(2) by (simp_all add: all_patterns_def slots_def)

lemma tss_empty_remainders:
  "remainders (day tss_empty) = []" "remainders (week tss_empty) = []"
  "remainders (two_week tss_empty) = []" "remainders (month tss_empty) = []"
  "remainders (two_month tss_empty) = []" "remainders (three_month tss_empty) = []"
  "remainders (six_month tss_empty) = []" "remainders (year tss_empty) = []"
  "remainders (two_year tss_empty) = []"
  using tss_empty_patterns(2) by (simp_all add: all_patterns_def slots_def)

lemma tss_empty_moduli_all:
  "list_all (\<lambda>p. float_divisor (modulo p)) (all_patterns tss_empty)"
  using tss_empty_patterns(2) float_limit_one by (simp add: list_all_iff)

lemma days_before_year_bounds:
  assumes "1 \<le> y" "y \<le> 9998"
  shows "0 \<le> days_before_year y" "days_before_year y \<le> 3651428"
proof -
  define k where "k = y - 1"
  have k: "0 \<le> k" "k \<le> 9997" using assms by (simp_all add: k_def)
  have a: "k div 4 \<le> 9997 div 4" using k(2) by (rule zdiv_mono1) simp
  have b: "k div 400 \<le> 9997 div 400" using k(2) by (rule zdiv_mono1) simp
  have c: "0 \<le> k div 100" "0 \<le> k div 400" using k(1) by (simp_all add: pos_imp_zdiv_nonneg_iff)
  have d: "k div 100 \<le> k div 4" using k(1) by (rule zdiv_mono2) simp_all
  have e: "days_before_year y = k * 365 + k div 4 - k div 100 + k div 400"
    by (simp add: days_before_year_def k_def)
  show "0 \<le> days_before_year y" using k(1) c d unfolding e by linarith
  show "days_before_year y \<le> 3651428" using k(2) a b c unfolding e by simp
qed

lemma days_before_month_bounds:
  assumes "1 \<le> m" "m \<le> 12"
  shows "0 \<le> days_before_month y m" "days_before_month y m \<le> 335"
proof -
  from assms have "m = 1 \<or> m = 2 \<or> m = 3 \<or> m = 4 \<or> m = 5 \<or> m = 6 \<or> m = 7 \<or> m = 8
      \<or> m = 9 \<or> m = 10 \<or> m = 11 \<or> m = 12" by presburger
  then show "0 \<le> days_before_month y m" "days_before_month y m \<le> 335"
    by (auto simp add: days_before_month_def days_before_month_table_def)
qed

lemma timestamp_month_ok:
  assumes "valid_datetime t" "dt_year t < 9999"
  shows "\<exists>v. timestamp_month (t\<lparr>tzinfo := z\<rparr>) = Inr v"
proof -
  from assms have y: "1 \<le> dt_year t" "dt_year t \<le> 9998" and m: "1 \<le> dt_month t" "dt_month t \<le> 12"
    by (simp_all add: valid_datetime_def)
  let ?n = "ymd2ord (dt_year t) (dt_month t) 1 + 35"
  have "1 \<le> ?n" "?n \<le> MAXORDINAL"
    using days_before_year_bounds [OF y] days_before_month_bounds [OF m, of "dt_year t"]
    by (simp_all add: ymd2ord_def MAXORDINAL_def)
  then show ?thesis
    by (simp add: timestamp_month_def add_days_def toordinal_def Let_def split: prod.split)
qed

lemma timestamp_n_month_ok:
  assumes "valid_datetime t" "dt_year t < 9999" "n \<noteq> 0"
  shows "\<exists>v. timestamp_n_month (t\<lparr>tzinfo := z\<rparr>) n = Inr v"
  using timestamp_month_ok [OF assms(1,2), of z] assms(3)
  by (auto simp add: timestamp_n_month_def Let_def)

lemma timestamp_n_year_ok:
  assumes "valid_datetime t" "dt_year t < 9999" "n \<noteq> 0"
  shows "\<exists>v. timestamp_n_year (t\<lparr>tzinfo := z\<rparr>) n = Inr v"
  using assms
  by (simp add: timestamp_n_year_def timestamp_year_def replace_year_def valid_datetime_def Let_def)

lemma tss_add_one_ok:
  assumes m: "list_all (\<lambda>p. float_divisor (modulo p)) (all_patterns s)"
    and t: "valid_datetime t" and y: "dt_year t < 9999"
  shows "\<exists>s' vs. length vs = 9 \<and> nine_phases (t\<lparr>tzinfo := Some 0\<rparr>) = map Inr vs
           \<and> tss_add_one s t = Inr s'
           \<and> map Inr (all_patterns s') = map2 (\<lambda>p v. add p (PyFloat v) PyNone) (all_patterns s) vs
           \<and> timestamps s' = timestamps s @ [t\<lparr>tzinfo := Some 0\<rparr>]"
proof -
  let ?t = "t\<lparr>tzinfo := Some 0\<rparr>"
  from timestamp_n_month_ok [OF t y, of 1 "Some 0"] timestamp_n_month_ok [OF t y, of 2 "Some 0"]
    timestamp_n_month_ok [OF t y, of 3 "Some 0"] timestamp_n_month_ok [OF t y, of 6 "Some 0"]
    timestamp_n_year_ok [OF t y, of 1 "Some 0"] timestamp_n_year_ok [OF t y, of 2 "Some 0"]
  obtain m1 m2 m3 m6 y1 y2 where ph:
    "timestamp_n_month ?t 1 = Inr m1" "timestamp_n_month ?t 2 = Inr m2"
    "timestamp_n_month ?t 3 = Inr m3" "timestamp_n_month ?t 6 = Inr m6"
    "timestamp_n_year ?t 1 = Inr y1" "timestamp_n_year ?t 2 = Inr y2"
    by auto
  from m have mods: "float_divisor (modulo (day s))" "float_divisor (modulo (week s))"
    "float_divisor (modulo (two_week s))" "float_divisor (modulo (month s))"
    "float_divisor (modulo (two_month s))" "float_divisor (modulo (three_month s))"
    "float_divisor (modulo (six_month s))" "float_divisor (modulo (year s))"
    "float_divisor (modulo (two_year s))"
    by (simp_all add: all_patterns_def slots_def)
  from add_float [OF mods(1), of "timestamp_day ?t"] add_float [OF mods(2), of "timestamp_week ?t"]
    add_float [OF mods(3), of "timestamp_two_week ?t"] add_float [OF mods(4), of m1]
    add_float [OF mods(5), of m2] add_float [OF mods(6), of m3] add_float [OF mods(7), of m6]
    add_float [OF mods(8), of y1] add_float [OF mods(9), of y2]
  obtain p0 p1 p2 p3 p4 p5 p6 p7 p8 where ad:
    "add (day s) (PyFloat (timestamp_day ?t)) PyNone = Inr p0"
    "add (week s) (PyFloat (timestamp_week ?t)) PyNone = Inr p1"
    "add (two_week s) (PyFloat (timestamp_two_week ?t)) PyNone = Inr p2"
    "add (month s) (PyFloat m1) PyNone = Inr p3"
    "add (two_month s) (PyFloat m2) PyNone = Inr p4"
    "add (three_month s) (PyFloat m3) PyNone = Inr p5"
    "add (six_month s) (PyFloat m6) PyNone = Inr p6"
    "add (year s) (PyFloat y1) PyNone = Inr p7"
    "add (two_year s) (PyFloat y2) PyNone = Inr p8"
    by blast
  let ?vs = "[timestamp_day ?t, timestamp_week ?t, timestamp_two_week ?t, m1, m2, m3, m6, y1, y2]"
  obtain hour n full_week day_of_week where
    h: "timestamp_hour_of_day_of_week_of_month ?t = (hour, n, full_week, day_of_week)"
    by (cases "timestamp_hour_of_day_of_week_of_month ?t") auto
  have "\<exists>s'. tss_add_one s t = Inr s'
          \<and> all_patterns s' = [p0, p1, p2, p3, p4, p5, p6, p7, p8]
          \<and> timestamps s' = timestamps s @ [?t]"
    using ph ad h
    by (simp add: tss_add_one_def Let_def route_def and_then_def all_patterns_def slots_def)
  then obtain s' where s': "tss_add_one s t = Inr s'"
    "all_patterns s' = [p0, p1, p2, p3, p4, p5, p6, p7, p8]"
    "timestamps s' = timestamps s @ [?t]"
    by blast
  have "nine_phases ?t = map Inr ?vs"
    using ph by (simp add: nine_phases_def)
  moreover have "length ?vs = 9" by simp
  moreover have "map Inr (all_patterns s')
      = map2 (\<lambda>p v. add p (PyFloat v) PyNone) (all_patterns s) ?vs"
    using ad by (simp add: s'(2)) (simp add: all_patterns_def slots_def)
  ultimately show ?thesis using s'(1,3) by blast
qed

lemma routed_patterns:
  assumes "length vs = 9"
    and "map Inr (all_patterns s') = map2 (\<lambda>p v. add p (PyFloat v) PyNone) (all_patterns s) vs"
    and "i < 9"
  shows "add (all_patterns s ! i) (PyFloat (vs ! i)) PyNone = Inr (all_patterns s' ! i)"
  using arg_cong [OF assms(2), of "\<lambda>xs. xs ! i"] assms(1,3)
  by (simp add: length_all_patterns)

lemma routed_counts:
  assumes "length vs = 9"
    and "map Inr (all_patterns s') = map2 (\<lambda>p v. add p (PyFloat v) PyNone) (all_patterns s) vs"
  shows "received_counts s' = map Suc (received_counts s)"
proof -
  have "\<And>i. i < 9 \<Longrightarrow>
          length (remainders (all_patterns s' ! i)) = Suc (length (remainders (all_patterns s ! i)))"
    by (rule add_length [OF routed_patterns [OF assms]])
  then show ?thesis
    by (simp add: received_counts_def list_eq_iff_nth_eq length_all_patterns)
qed

lemma tss_add_one_wf:
  assumes w: "wf_set s" and t: "valid_datetime t" and y: "dt_year t < 9999"
  shows "\<exists>s'. tss_add_one s t = Inr s' \<and> wf_set s' \<and> no_caches s'
           \<and> received_counts s' = map Suc (received_counts s)
           \<and> map min_items (all_patterns s') = map min_items (all_patterns s)
           \<and> map min_periods (all_patterns s') = map min_periods (all_patterns s)"
proof -
  from tss_add_one_ok [OF wf_moduli [OF w] t y] obtain s' vs where
    s': "length vs = 9" "tss_add_one s t = Inr s'"
      "map Inr (all_patterns s') = map2 (\<lambda>p v. add p (PyFloat v) PyNone) (all_patterns s) vs"
    by blast
  note step = routed_patterns [OF s'(1,3)]
  have nm: "map name (all_patterns s') = map name (all_patterns s)"
    by (rule nth_equalityI) (simp_all add: length_all_patterns add_keeps(1) [OF step])
  have mi: "map min_items (all_patterns s') = map min_items (all_patterns s)"
    by (rule nth_equalityI) (simp_all add: length_all_patterns add_keeps(5) [OF step])
  have mp: "map min_periods (all_patterns s') = map min_periods (all_patterns s)"
    by (rule nth_equalityI) (simp_all add: length_all_patterns add_keeps(4) [OF step])
  have ok: "list_all (\<lambda>p. float_state p \<and> 0 < vector_dimension p) (all_patterns s')"
    using wf_pattern [OF w] add_float_state [OF _ step]
    by (simp add: list_all_length length_all_patterns add_keeps(3) [OF step])
  have nc: "no_caches s'"
    by (simp add: no_caches_def list_all_length length_all_patterns add_keeps(6,7) [OF step])
  from nm ok w have "wf_set s'" by (simp add: wf_set_def)
  with s'(2) nc routed_counts [OF s'(1,3)] mi mp show ?thesis by blast
qed

lemma tss_add_wf:
  assumes "wf_set s" "no_caches s" "list_all (\<lambda>t. valid_datetime t \<and> dt_year t < 9999) ts"
  shows "\<exists>s'. tss_add s ts = Inr s' \<and> wf_set s' \<and> no_caches s'
           \<and> received_counts s' = map (\<lambda>n. n + length ts) (received_counts s)
           \<and> map min_items (all_patterns s') = map min_items (all_patterns s)
           \<and> map min_periods (all_patterns s') = map min_periods (all_patterns s)"
  using assms
proof (induction ts arbitrary: s)
  case Nil
  then show ?case by simp
next
  case (Cons t ts)
  then have t: "valid_datetime t" "dt_year t < 9999"
    and ts: "list_all (\<lambda>t. valid_datetime t \<and> dt_year t < 9999) ts" by simp_all
  from tss_add_one_wf [OF Cons.prems(1) t] obtain s1 where
    s1: "tss_add_one s t = Inr s1" "wf_set s1" "no_caches s1"
      "received_counts s1 = map Suc (received_counts s)"
      "map min_items (all_patterns s1) = map min_items (all_patterns s)"
      "map min_periods (all_patterns s1) = map min_periods (all_patterns s)"
    by blast
  from Cons.IH [OF s1(2,3) ts] obtain s' where
    s': "tss_add s1 ts = Inr s'" "wf_set s'" "no_caches s'"
      "received_counts s' = map (\<lambda>n. n + length ts) (received_counts s1)"
      "map min_items (all_patterns s') = map min_items (all_patterns s1)"
      "map min_periods (all_patterns s') = map min_periods (all_patterns s1)"
    by blast
  have "tss_add s (t # ts) = Inr s'"
    using s1(1) s'(1) by (simp add: and_then_def)
  moreover have "received_counts s' = map (\<lambda>n. n + length (t # ts)) (received_counts s)"
    by (simp add: s'(4) s1(4) comp_def)
  ultimately show ?case using s' s1 by auto
qed

lemma valid_sample: "valid_datetime sample_timestamp \<and> dt_year sample_timestamp < 9999"
  by (simp add: valid_datetime_def sample_timestamp_def days_in_month_def days_in_month_table_def)

lemma tss_one_ok:
  "tss_add_one tss_empty sample_timestamp = Inr tss_one" "wf_set tss_one" "no_caches tss_one"
  "received_counts tss_one = [1, 1, 1, 1, 1, 1, 1, 1, 1]"
  "map min_items (all_patterns tss_one) = [12, 12, 12, 12, 12, 12, 24, 36, 72]"
proof -
  from tss_add_one_wf [OF wf_set_empty, of sample_timestamp] valid_sample
  obtain s' where s': "tss_add_one tss_empty sample_timestamp = Inr s'" "wf_set s'"
    "no_caches s'" "received_counts s' = map Suc (received_counts tss_empty)"
    "map min_items (all_patterns s') = map min_items (all_patterns tss_empty)"
    by blast
  then have e: "tss_one = s'" by (simp add: tss_one_def)
  have "received_counts tss_empty = [0, 0, 0, 0, 0, 0, 0, 0, 0]"
    by (simp add: received_counts_def all_patterns_def slots_def tss_empty_remainders)
  with s' e show "tss_add_one tss_empty sample_timestamp = Inr tss_one" "wf_set tss_one"
    "no_caches tss_one" "received_counts tss_one = [1, 1, 1, 1, 1, 1, 1, 1, 1]"
    "map min_items (all_patterns tss_one) = [12, 12, 12, 12, 12, 12, 24, 36, 72]"
    by (simp_all add: tss_empty_patterns(4))
qed

lemma tss_twelve_ok:
  "tss_add tss_empty (replicate 12 sample_timestamp) = Inr tss_twelve" "wf_set tss_twelve"
  "no_caches tss_twelve"
  "received_counts tss_twelve = [12, 12, 12, 12, 12, 12, 12, 12, 12]"
  "map min_items (all_patterns tss_twelve) = [12, 12, 12, 12, 12, 12, 24, 36, 72]"
  "map min_periods (all_patterns tss_twelve) = [0, 4, 12, 4, 6, 4, 4, 4, 4]"
proof -
  have v: "list_all (\<lambda>t. valid_datetime t \<and> dt_year t < 9999) (replicate 12 sample_timestamp)"
    using valid_sample by (simp add: list_all_iff)
  from tss_add_wf [OF wf_set_empty no_caches_empty v]
  obtain s' where s': "tss_add tss_empty (replicate 12 sample_timestamp) = Inr s'" "wf_set s'"
    "no_caches s'"
    "received_counts s' = map (\<lambda>n. n + length (replicate 12 sample_timestamp))
                            (received_counts tss_empty)"
    "map min_items (all_patterns s') = map min_items (all_patterns tss_empty)"
    "map min_periods (all_patterns s') = map min_periods (all_patterns tss_empty)"
    by blast
  then have e: "tss_twelve = s'" by (simp add: tss_twelve_def)
  have "received_counts tss_empty = [0, 0, 0, 0, 0, 0, 0, 0, 0]"
    by (simp add: received_counts_def all_patterns_def slots_def tss_empty_remainders)
  with s' e show "tss_add tss_empty (replicate 12 sample_timestamp) = Inr tss_twelve"
    "wf_set tss_twelve" "no_caches tss_twelve"
    "received_counts tss_twelve = [12, 12, 12, 12, 12, 12, 12, 12, 12]"
    "map min_items (all_patterns tss_twelve) = [12, 12, 12, 12, 12, 12, 24, 36, 72]"
    "map min_periods (all_patterns tss_twelve) = [0, 4, 12, 4, 6, 4, 4, 4, 4]"
    by (simp_all add: tss_empty_patterns(3,4))
qed

lemma valid_evening: "valid_datetime utc_evening \<and> dt_year utc_evening < 9999"
  by (simp add: valid_datetime_def utc_evening_def days_in_month_def days_in_month_table_def)

lemma tss_evening_ok:
  "tss_add tss_empty (replicate 12 utc_evening) = Inr tss_evening" "wf_set tss_evening"
  "no_caches tss_evening"
  "received_counts tss_evening = [12, 12, 12, 12, 12, 12, 12, 12, 12]"
  "map min_items (all_patterns tss_evening) = [12, 12, 12, 12, 12, 12, 24, 36, 72]"
  "map min_periods (all_patterns tss_evening) = [0, 4, 12, 4, 6, 4, 4, 4, 4]"
proof -
  have v: "list_all (\<lambda>t. valid_datetime t \<and> dt_year t < 9999) (replicate 12 utc_evening)"
    using valid_evening by (simp add: list_all_iff)
  from tss_add_wf [OF wf_set_empty no_caches_empty v]
  obtain s' where s': "tss_add tss_empty (replicate 12 utc_evening) = Inr s'" "wf_set s'"
    "no_caches s'"
    "received_counts s' = map (\<lambda>n. n + length (replicate 12 utc_evening))
                            (received_counts tss_empty)"
    "map min_items (all_patterns s') = map min_items (all_patterns tss_empty)"
    "map min_periods (all_patterns s') = map min_periods (all_patterns tss_empty)"
    by blast
  then have e: "tss_evening = s'" by (simp add: tss_evening_def)
  have "received_counts tss_empty = [0, 0, 0, 0, 0, 0, 0, 0, 0]"
    by (simp add: received_counts_def all_patterns_def slots_def tss_empty_remainders)
  with s' e show "tss_add tss_empty (replicate 12 utc_evening) = Inr tss_evening"
    "wf_set tss_evening" "no_caches tss_evening"
    "received_counts tss_evening = [12, 12, 12, 12, 12, 12, 12, 12, 12]"
    "map min_items (all_patterns tss_evening) = [12, 12, 12, 12, 12, 12, 24, 36, 72]"
    "map min_periods (all_patterns tss_evening) = [0, 4, 12, 4, 6, 4, 4, 4, 4]"
    by (simp_all add: tss_empty_patterns(3,4))
qed

text \<open>
  \<open>add\<close> of the set has no rollback. The phases of the month patterns fail together
  and so do those of the year patterns, so \<open>add\<close> stops at the first pattern whose
  phase raises: the patterns before it have received their value, the others are
  untouched, and the timestamp is in the log in both cases.
\<close>

lemma n_month_fails:
  assumes "timestamp_month t = Inl e"
  shows "timestamp_n_month t n = Inl e"
  using assms by (simp add: timestamp_n_month_def)

lemma n_month_succeeds:
  assumes "timestamp_month t = Inr v" "n \<noteq> 0"
  shows "\<exists>w. timestamp_n_month t n = Inr w"
  using assms by (simp add: timestamp_n_month_def Let_def)

lemma n_year_fails:
  assumes "timestamp_year t = Inl e"
  shows "timestamp_n_year t n = Inl e"
  using assms by (simp add: timestamp_n_year_def)

lemma n_year_succeeds:
  assumes "timestamp_year t = Inr v" "n \<noteq> 0"
  shows "\<exists>w. timestamp_n_year t n = Inr w"
  using assms by (simp add: timestamp_n_year_def Let_def)

lemma tss_add_one_prefix:
  assumes m: "list_all (\<lambda>p. float_divisor (modulo p)) (all_patterns s)"
  shows "\<exists>k vs s'. k \<le> 9 \<and> length vs = k
           \<and> take k (nine_phases (t\<lparr>tzinfo := Some 0\<rparr>)) = map Inr vs
           \<and> map Inr (take k (all_patterns s'))
               = map2 (\<lambda>p v. add p (PyFloat v) PyNone) (take k (all_patterns s)) vs
           \<and> drop k (all_patterns s') = drop k (all_patterns s)
           \<and> timestamps s' = timestamps s @ [t\<lparr>tzinfo := Some 0\<rparr>]
           \<and> (if k = 9 then tss_add_one s t = Inr s'
                else \<exists>e. nine_phases (t\<lparr>tzinfo := Some 0\<rparr>) ! k = Inl e
                       \<and> tss_add_one s t = Inl (e, s'))"
proof -
  let ?t = "t\<lparr>tzinfo := Some 0\<rparr>"
  from m have mods: "float_divisor (modulo (day s))" "float_divisor (modulo (week s))"
    "float_divisor (modulo (two_week s))" "float_divisor (modulo (month s))"
    "float_divisor (modulo (two_month s))" "float_divisor (modulo (three_month s))"
    "float_divisor (modulo (six_month s))" "float_divisor (modulo (year s))"
    "float_divisor (modulo (two_year s))"
    by (simp_all add: all_patterns_def slots_def)
  obtain hour n full_week day_of_week where
    h: "timestamp_hour_of_day_of_week_of_month ?t = (hour, n, full_week, day_of_week)"
    by (cases "timestamp_hour_of_day_of_week_of_month ?t") auto
  from add_float [OF mods(1), of "timestamp_day ?t"] add_float [OF mods(2), of "timestamp_week ?t"]
    add_float [OF mods(3), of "timestamp_two_week ?t"]
  obtain p0 p1 p2 where ad3:
    "add (day s) (PyFloat (timestamp_day ?t)) PyNone = Inr p0"
    "add (week s) (PyFloat (timestamp_week ?t)) PyNone = Inr p1"
    "add (two_week s) (PyFloat (timestamp_two_week ?t)) PyNone = Inr p2"
    by blast
  show ?thesis
  proof (cases "timestamp_month ?t")
    case (Inl e)
    note ph = n_month_fails [OF Inl, of 1]
    let ?vs = "[timestamp_day ?t, timestamp_week ?t, timestamp_two_week ?t]"
    have "\<exists>s'. tss_add_one s t = Inl (e, s')
            \<and> all_patterns s' = [p0, p1, p2, month s, two_month s, three_month s, six_month s,
                                  year s, two_year s]
            \<and> timestamps s' = timestamps s @ [?t]"
      using ph ad3 h
      by (simp add: tss_add_one_def Let_def route_def and_then_def all_patterns_def slots_def)
    then obtain s' where s': "tss_add_one s t = Inl (e, s')"
      "all_patterns s' = [p0, p1, p2, month s, two_month s, three_month s, six_month s,
                          year s, two_year s]"
      "timestamps s' = timestamps s @ [?t]"
      by blast
    have a: "take 3 (nine_phases ?t) = map Inr ?vs" "nine_phases ?t ! 3 = Inl e"
      using ph by (simp_all add: nine_phases_def)
    have b: "map Inr (take 3 (all_patterns s'))
               = map2 (\<lambda>p v. add p (PyFloat v) PyNone) (take 3 (all_patterns s)) ?vs"
      using ad3 by (simp add: s'(2)) (simp add: all_patterns_def slots_def)
    have c: "drop 3 (all_patterns s') = drop 3 (all_patterns s)"
      by (simp add: s'(2)) (simp add: all_patterns_def slots_def)
    have "(3::nat) \<le> 9 \<and> length ?vs = 3
           \<and> take 3 (nine_phases ?t) = map Inr ?vs
           \<and> map Inr (take 3 (all_patterns s'))
               = map2 (\<lambda>p v. add p (PyFloat v) PyNone) (take 3 (all_patterns s)) ?vs
           \<and> drop 3 (all_patterns s') = drop 3 (all_patterns s)
           \<and> timestamps s' = timestamps s @ [?t]
           \<and> (if (3::nat) = 9 then tss_add_one s t = Inr s'
                else \<exists>e. nine_phases ?t ! 3 = Inl e \<and> tss_add_one s t = Inl (e, s'))"
      using a b c s'(1,3) by simp
    then show ?thesis by blast
  next
    case (Inr mv)
    from n_month_succeeds [OF Inr, of 1] n_month_succeeds [OF Inr, of 2]
      n_month_succeeds [OF Inr, of 3] n_month_succeeds [OF Inr, of 6]
    obtain m1 m2 m3 m6 where phm:
      "timestamp_n_month ?t 1 = Inr m1" "timestamp_n_month ?t 2 = Inr m2"
      "timestamp_n_month ?t 3 = Inr m3" "timestamp_n_month ?t 6 = Inr m6"
      by auto
    from add_float [OF mods(4), of m1] add_float [OF mods(5), of m2]
      add_float [OF mods(6), of m3] add_float [OF mods(7), of m6]
    obtain p3 p4 p5 p6 where ad7:
      "add (month s) (PyFloat m1) PyNone = Inr p3"
      "add (two_month s) (PyFloat m2) PyNone = Inr p4"
      "add (three_month s) (PyFloat m3) PyNone = Inr p5"
      "add (six_month s) (PyFloat m6) PyNone = Inr p6"
      by blast
    show ?thesis
    proof (cases "timestamp_year ?t")
      case (Inl e)
      note ph = n_year_fails [OF Inl, of 1]
      let ?vs = "[timestamp_day ?t, timestamp_week ?t, timestamp_two_week ?t, m1, m2, m3, m6]"
      have "\<exists>s'. tss_add_one s t = Inl (e, s')
              \<and> all_patterns s' = [p0, p1, p2, p3, p4, p5, p6, year s, two_year s]
              \<and> timestamps s' = timestamps s @ [?t]"
        using ph phm ad3 ad7 h
        by (simp add: tss_add_one_def Let_def route_def and_then_def all_patterns_def slots_def)
      then obtain s' where s': "tss_add_one s t = Inl (e, s')"
        "all_patterns s' = [p0, p1, p2, p3, p4, p5, p6, year s, two_year s]"
        "timestamps s' = timestamps s @ [?t]"
        by blast
      have a: "take 7 (nine_phases ?t) = map Inr ?vs" "nine_phases ?t ! 7 = Inl e"
        using ph phm by (simp_all add: nine_phases_def)
      have b: "map Inr (take 7 (all_patterns s'))
                 = map2 (\<lambda>p v. add p (PyFloat v) PyNone) (take 7 (all_patterns s)) ?vs"
        using ad3 ad7 by (simp add: s'(2)) (simp add: all_patterns_def slots_def)
      have c: "drop 7 (all_patterns s') = drop 7 (all_patterns s)"
        by (simp add: s'(2)) (simp add: all_patterns_def slots_def)
      have "(7::nat) \<le> 9 \<and> length ?vs = 7
             \<and> take 7 (nine_phases ?t) = map Inr ?vs
             \<and> map Inr (take 7 (all_patterns s'))
                 = map2 (\<lambda>p v. add p (PyFloat v) PyNone) (take 7 (all_patterns s)) ?vs
             \<and> drop 7 (all_patterns s') = drop 7 (all_patterns s)
             \<and> timestamps s' = timestamps s @ [?t]
             \<and> (if (7::nat) = 9 then tss_add_one s t = Inr s'
                  else \<exists>e. nine_phases ?t ! 7 = Inl e \<and> tss_add_one s t = Inl (e, s'))"
        using a b c s'(1,3) by simp
      then show ?thesis by blast
    next
      case (Inr yv)
      from n_year_succeeds [OF Inr, of 1] n_year_succeeds [OF Inr, of 2]
      obtain y1 y2 where phy:
        "timestamp_n_year ?t 1 = Inr y1" "timestamp_n_year ?t 2 = Inr y2"
        by auto
      from add_float [OF mods(8), of y1] add_float [OF mods(9), of y2]
      obtain p7 p8 where ad9:
        "add (year s) (PyFloat y1) PyNone = Inr p7"
        "add (two_year s) (PyFloat y2) PyNone = Inr p8"
        by blast
      let ?vs = "[timestamp_day ?t, timestamp_week ?t, timestamp_two_week ?t, m1, m2, m3, m6,
                  y1, y2]"
      have "\<exists>s'. tss_add_one s t = Inr s'
              \<and> all_patterns s' = [p0, p1, p2, p3, p4, p5, p6, p7, p8]
              \<and> timestamps s' = timestamps s @ [?t]"
        using phy phm ad3 ad7 ad9 h
        by (simp add: tss_add_one_def Let_def route_def and_then_def all_patterns_def slots_def)
      then obtain s' where s': "tss_add_one s t = Inr s'"
        "all_patterns s' = [p0, p1, p2, p3, p4, p5, p6, p7, p8]"
        "timestamps s' = timestamps s @ [?t]"
        by blast
      have a: "take 9 (nine_phases ?t) = map Inr ?vs"
        using phy phm by (simp add: nine_phases_def)
      have b: "map Inr (take 9 (all_patterns s'))
                 = map2 (\<lambda>p v. add p (PyFloat v) PyNone) (take 9 (all_patterns s)) ?vs"
        using ad3 ad7 ad9 by (simp add: s'(2)) (simp add: all_patterns_def slots_def)
      have c: "drop 9 (all_patterns s') = drop 9 (all_patterns s)"
        by (simp add: s'(2)) (simp add: all_patterns_def slots_def)
      have "(9::nat) \<le> 9 \<and> length ?vs = 9
             \<and> take 9 (nine_phases ?t) = map Inr ?vs
             \<and> map Inr (take 9 (all_patterns s'))
                 = map2 (\<lambda>p v. add p (PyFloat v) PyNone) (take 9 (all_patterns s)) ?vs
             \<and> drop 9 (all_patterns s') = drop 9 (all_patterns s)
             \<and> timestamps s' = timestamps s @ [?t]
             \<and> (if (9::nat) = 9 then tss_add_one s t = Inr s'
                  else \<exists>e. nine_phases ?t ! 9 = Inl e \<and> tss_add_one s t = Inl (e, s'))"
        using a b c s'(1,3) by simp
      then show ?thesis by blast
    qed
  qed
qed

section \<open>Properties of TimeStampSetV2\<close>

subsection \<open>add: routing to the nine patterns\<close>

text \<open>
  Claim C5, as the code has it, for a set whose patterns have a modulo that a float can
  be divided by (every pattern of \<open>__init__\<close> has the modulo \<open>1\<close>), so that the
  \<open>add\<close> of a pattern does not raise. \<open>add\<close> hands the phase values to the nine patterns
  in order, up to the first phase computation that raises: the first \<open>k\<close> patterns of
  the new state are the results of the pattern's \<open>add\<close>, the others are unchanged, the
  timestamp, relabelled as UTC, is appended to the log, and the call returns when
  \<open>k = 9\<close> and raises the error of phase \<open>k\<close> otherwise. For a timestamp of a year
  before 9999 all nine phase computations succeed and all nine patterns receive their
  value.
\<close>

theorem add_routes_to_all_nine:
  assumes "list_all (\<lambda>p. float_divisor (modulo p)) (all_patterns s)"
  shows "(\<exists>k vs s'. k \<le> 9 \<and> length vs = k
            \<and> take k (nine_phases (t\<lparr>tzinfo := Some 0\<rparr>)) = map Inr vs
            \<and> map Inr (take k (all_patterns s'))
                = map2 (\<lambda>p v. add p (PyFloat v) PyNone) (take k (all_patterns s)) vs
            \<and> drop k (all_patterns s') = drop k (all_patterns s)
            \<and> timestamps s' = timestamps s @ [t\<lparr>tzinfo := Some 0\<rparr>]
            \<and> (if k = 9 then tss_add_one s t = Inr s'
                 else \<exists>e. nine_phases (t\<lparr>tzinfo := Some 0\<rparr>) ! k = Inl e
                        \<and> tss_add_one s t = Inl (e, s')))
         \<and> (valid_datetime t \<and> dt_year t < 9999 \<longrightarrow>
             (\<exists>s' vs. length vs = 9 \<and> nine_phases (t\<lparr>tzinfo := Some 0\<rparr>) = map Inr vs
                \<and> tss_add_one s t = Inr s'
                \<and> map Inr (all_patterns s')
                    = map2 (\<lambda>p v. add p (PyFloat v) PyNone) (all_patterns s) vs
                \<and> timestamps s' = timestamps s @ [t\<lparr>tzinfo := Some 0\<rparr>]))"
  using tss_add_one_prefix [OF assms, of t] tss_add_one_ok [OF assms, of t] by blast

theorem add_routes_to_all_nine_witness:
  "list_all (\<lambda>p. float_divisor (modulo p)) (all_patterns tss_empty)
   \<and> valid_datetime sample_timestamp \<and> dt_year sample_timestamp < 9999
   \<and> (\<exists>s'. tss_add_one tss_empty sample_timestamp = Inr s'
          \<and> received_counts s' = [1, 1, 1, 1, 1, 1, 1, 1, 1]
          \<and> timestamps s' = [sample_timestamp\<lparr>tzinfo := Some 0\<rparr>])"
proof -
  have v: "valid_datetime sample_timestamp" "dt_year sample_timestamp < 9999"
    using valid_sample by simp_all
  from add_routes_to_all_nine [OF tss_empty_moduli_all, of sample_timestamp] v obtain s' vs where
    s': "length vs = 9" "tss_add_one tss_empty sample_timestamp = Inr s'"
      "map Inr (all_patterns s')
         = map2 (\<lambda>p v. add p (PyFloat v) PyNone) (all_patterns tss_empty) vs"
      "timestamps s' = timestamps tss_empty @ [sample_timestamp\<lparr>tzinfo := Some 0\<rparr>]"
    by blast
  have "received_counts tss_empty = [0, 0, 0, 0, 0, 0, 0, 0, 0]"
    by (simp add: received_counts_def all_patterns_def slots_def tss_empty_remainders)
  with routed_counts [OF s'(1,3)] have "received_counts s' = [1, 1, 1, 1, 1, 1, 1, 1, 1]"
    by simp
  with s'(2,4) tss_empty_moduli_all v show ?thesis
    by (simp add: tss_empty_patterns(5))
qed

text \<open>
  The claim as stated, all nine or none, fails: \<open>add\<close> has no rollback. For midnight
  of 1 January 9999 the seven patterns from \<open>day\<close> to \<open>six_month\<close> have received
  their value when \<open>replace(year=10000)\<close> raises \<open>ValueError\<close> in the phase of the
  \<open>year\<close> pattern; \<open>year\<close> and \<open>two_year\<close> have received nothing.
\<close>

theorem add_is_not_atomic:
  "valid_datetime last_year_timestamp
   \<and> isl (tss_add_one tss_empty last_year_timestamp)
   \<and> fst (projl (tss_add_one tss_empty last_year_timestamp)) = ValueError
   \<and> received_counts (snd (projl (tss_add_one tss_empty last_year_timestamp)))
       = [1, 1, 1, 1, 1, 1, 1, 0, 0]"
proof -
  let ?t = "last_year_timestamp\<lparr>tzinfo := Some 0\<rparr>"
  have v: "valid_datetime last_year_timestamp"
    by (simp add: valid_datetime_def last_year_timestamp_def days_in_month_def
        days_in_month_table_def)
  have mo: "\<exists>v. timestamp_month ?t = Inr v"
    by (simp add: timestamp_month_def add_days_def toordinal_def ymd2ord_def
        days_before_year_def days_before_month_def days_before_month_table_def is_leap_def
        MAXORDINAL_def last_year_timestamp_def Let_def split: prod.split)
  then obtain m1 m2 m3 m6 where ph:
    "timestamp_n_month ?t 1 = Inr m1" "timestamp_n_month ?t 2 = Inr m2"
    "timestamp_n_month ?t 3 = Inr m3" "timestamp_n_month ?t 6 = Inr m6"
    by (auto simp add: timestamp_n_month_def Let_def)
  have yr: "timestamp_n_year ?t 1 = Inl ValueError"
    by (simp add: timestamp_n_year_def timestamp_year_def replace_year_def
        last_year_timestamp_def)
  from add_float_length [of "day tss_empty" "timestamp_day ?t"]
    add_float_length [of "week tss_empty" "timestamp_week ?t"]
    add_float_length [of "two_week tss_empty" "timestamp_two_week ?t"]
    add_float_length [of "month tss_empty" m1] add_float_length [of "two_month tss_empty" m2]
    add_float_length [of "three_month tss_empty" m3] add_float_length [of "six_month tss_empty" m6]
  obtain p0 p1 p2 p3 p4 p5 p6 where ad:
    "add (day tss_empty) (PyFloat (timestamp_day ?t)) PyNone = Inr p0"
    "add (week tss_empty) (PyFloat (timestamp_week ?t)) PyNone = Inr p1"
    "add (two_week tss_empty) (PyFloat (timestamp_two_week ?t)) PyNone = Inr p2"
    "add (month tss_empty) (PyFloat m1) PyNone = Inr p3"
    "add (two_month tss_empty) (PyFloat m2) PyNone = Inr p4"
    "add (three_month tss_empty) (PyFloat m3) PyNone = Inr p5"
    "add (six_month tss_empty) (PyFloat m6) PyNone = Inr p6"
    and ln: "length (remainders p0) = 1" "length (remainders p1) = 1"
    "length (remainders p2) = 1" "length (remainders p3) = 1" "length (remainders p4) = 1"
    "length (remainders p5) = 1" "length (remainders p6) = 1"
    using float_limit_one by (auto simp add: tss_empty_moduli tss_empty_remainders)
  obtain hour n full_week day_of_week where
    h: "timestamp_hour_of_day_of_week_of_month ?t = (hour, n, full_week, day_of_week)"
    by (cases "timestamp_hour_of_day_of_week_of_month ?t") auto
  have "\<exists>s'. tss_add_one tss_empty last_year_timestamp = Inl (ValueError, s')
          \<and> all_patterns s' = [p0, p1, p2, p3, p4, p5, p6, year tss_empty, two_year tss_empty]"
    using ph yr ad h
    by (simp add: tss_add_one_def Let_def route_def and_then_def all_patterns_def slots_def)
  then obtain s' where
    s': "tss_add_one tss_empty last_year_timestamp = Inl (ValueError, s')"
      "all_patterns s' = [p0, p1, p2, p3, p4, p5, p6, year tss_empty, two_year tss_empty]"
    by blast
  have "received_counts s' = [1, 1, 1, 1, 1, 1, 1, 0, 0]"
    using ln by (simp add: received_counts_def s'(2) tss_empty_remainders)
  with v s'(1) show ?thesis by simp
qed

subsection \<open>add and likelihood: the time zone\<close>

lemma replace_zone_wall:
  assumes "wall_clock t = wall_clock t'"
  shows "t\<lparr>tzinfo := Some 0\<rparr> = t'\<lparr>tzinfo := Some 0\<rparr>"
  using arg_cong [OF assms, of "\<lambda>x. x\<lparr>tzinfo := Some 0\<rparr>"]
  by (simp add: wall_clock_def)

lemma tss_add_one_wall:
  assumes "wall_clock t = wall_clock t'"
  shows "tss_add_one s t = tss_add_one s t'"
  unfolding tss_add_one_def replace_zone_wall [OF assms] by (rule refl)

lemma tss_add_wall:
  assumes "map wall_clock ts = map wall_clock ts'"
  shows "tss_add s ts = tss_add s ts'"
  using assms
proof (induction ts arbitrary: ts' s)
  case Nil
  then show ?case by simp
next
  case (Cons t ts)
  then obtain t' us where ts': "ts' = t' # us" "wall_clock t = wall_clock t'"
    "map wall_clock ts = map wall_clock us"
    by (cases ts') auto
  from Cons.IH [OF ts'(3)] tss_add_one_wall [OF ts'(2)] show ?case
    by (simp add: ts'(1))
qed

lemma likelihood_row_wall:
  assumes "wall_clock t = wall_clock t'"
  shows "likelihood_row score s t = likelihood_row score s t'"
  unfolding likelihood_row_def replace_zone_wall [OF assms] by (rule refl)

lemma likelihood_loop_wall:
  assumes "map wall_clock ts = map wall_clock ts'"
  shows "likelihood_loop score s ts acc = likelihood_loop score s ts' acc"
  using assms
proof (induction ts arbitrary: ts' s acc)
  case Nil
  then show ?case by simp
next
  case (Cons t ts)
  then obtain t' us where ts': "ts' = t' # us" "wall_clock t = wall_clock t'"
    "map wall_clock ts = map wall_clock us"
    by (cases ts') auto
  from Cons.IH [OF ts'(3)] likelihood_row_wall [OF ts'(2)] show ?case
    by (simp add: ts'(1) split: sum.split)
qed

text \<open>
  Claim C6, as the code has it. \<open>replace(tzinfo=utc)\<close> overwrites the zone and keeps the
  wall-clock fields, so the zone of a timestamp has no influence: two batches with the
  same wall-clock fields give the same result of \<open>add\<close>; two timestamps with the same
  wall-clock fields give the same \<open>likelihood\<close>; and so do two batches that agree on the
  wall-clock fields once each is sorted (the sort itself looks at the zones).
\<close>

theorem zone_is_overwritten:
  "(map wall_clock ts = map wall_clock ts' \<longrightarrow> tss_add s ts = tss_add s ts')
   \<and> (wall_clock t = wall_clock t' \<longrightarrow>
        tss_likelihood score s [t] = tss_likelihood score s [t'])
   \<and> (sorted_timestamps ts = Inr us \<and> sorted_timestamps ts' = Inr us'
        \<and> map wall_clock us = map wall_clock us' \<longrightarrow>
        tss_likelihood score s ts = tss_likelihood score s ts')"
proof (intro conjI impI)
  assume "map wall_clock ts = map wall_clock ts'"
  then show "tss_add s ts = tss_add s ts'" by (rule tss_add_wall)
next
  assume w: "wall_clock t = wall_clock t'"
  have "sorted_timestamps [t] = Inr [t]" "sorted_timestamps [t'] = Inr [t']"
    by (simp_all add: sorted_timestamps_def)
  moreover have "likelihood_loop score s [t] [] = likelihood_loop score s [t'] []"
    using w by (intro likelihood_loop_wall) simp
  ultimately show "tss_likelihood score s [t] = tss_likelihood score s [t']"
    unfolding tss_likelihood_def by simp
next
  assume a: "sorted_timestamps ts = Inr us \<and> sorted_timestamps ts' = Inr us'
        \<and> map wall_clock us = map wall_clock us'"
  then have "likelihood_loop score s us [] = likelihood_loop score s us' []"
    by (intro likelihood_loop_wall) simp
  with a show "tss_likelihood score s ts = tss_likelihood score s ts'"
    unfolding tss_likelihood_def by simp
qed

theorem zone_is_overwritten_witness:
  "tzinfo utc_evening \<noteq> tzinfo relabelled_evening
   \<and> map wall_clock [utc_evening] = map wall_clock [relabelled_evening]
   \<and> tss_add tss_empty [utc_evening] = tss_add tss_empty [relabelled_evening]
   \<and> wall_clock utc_evening = wall_clock relabelled_evening
   \<and> sorted_timestamps [utc_evening] = Inr [utc_evening]
   \<and> sorted_timestamps [relabelled_evening] = Inr [relabelled_evening]
   \<and> tss_likelihood gaussian_score tss_empty [utc_evening]
       = tss_likelihood gaussian_score tss_empty [relabelled_evening]"
proof -
  have w: "wall_clock utc_evening = wall_clock relabelled_evening"
    by (simp add: wall_clock_def relabelled_evening_def)
  have z: "tzinfo utc_evening \<noteq> tzinfo relabelled_evening"
    by (simp add: utc_evening_def relabelled_evening_def)
  have so: "sorted_timestamps [utc_evening] = Inr [utc_evening]"
    "sorted_timestamps [relabelled_evening] = Inr [relabelled_evening]"
    by (simp_all add: sorted_timestamps_def)
  from zone_is_overwritten [where ts = "[utc_evening]" and ts' = "[relabelled_evening]"
      and s = tss_empty and t = utc_evening and t' = relabelled_evening
      and score = gaussian_score and us = "[utc_evening]" and us' = "[relabelled_evening]"]
    w z so
  show ?thesis by simp
qed

lemma same_instant: "posix_timestamp utc_evening = posix_timestamp cet_after_midnight"
  by (simp add: posix_timestamp_def wall_seconds_def utcoffset_def toordinal_def ymd2ord_def
      days_before_year_def days_before_month_def days_before_month_table_def is_leap_def
      utc_evening_def cet_after_midnight_def)

lemma day_phases:
  "timestamp_day (utc_evening\<lparr>tzinfo := Some 0\<rparr>) = 18262 + 47 / 48"
  "timestamp_day (cet_after_midnight\<lparr>tzinfo := Some 0\<rparr>) = 18263 + 1 / 48"
  by (simp_all add: timestamp_day_def total_seconds_between_def posix_timestamp_def wall_seconds_def utcoffset_def toordinal_def ymd2ord_def
      days_before_year_def days_before_month_def days_before_month_table_def is_leap_def
      utc_evening_def cet_after_midnight_def Let_def)

lemma valid_examples:
  "valid_datetime utc_evening" "dt_year utc_evening < 9999"
  "valid_datetime cet_after_midnight" "dt_year cet_after_midnight < 9999"
  by (simp_all add: valid_datetime_def utc_evening_def cet_after_midnight_def
      days_in_month_def days_in_month_table_def)

lemma day_after_add:
  assumes "valid_datetime t" "dt_year t < 9999"
  shows "\<exists>s'. tss_add_one tss_empty t = Inr s'
           \<and> add (day tss_empty) (PyFloat (timestamp_day (t\<lparr>tzinfo := Some 0\<rparr>))) PyNone
               = Inr (day s')"
proof -
  from tss_add_one_ok [OF tss_empty_moduli_all assms] obtain s' vs where
    s': "length vs = 9" "nine_phases (t\<lparr>tzinfo := Some 0\<rparr>) = map Inr vs"
      "tss_add_one tss_empty t = Inr s'"
      "map Inr (all_patterns s') = map2 (\<lambda>p v. add p (PyFloat v) PyNone) (all_patterns tss_empty) vs"
    by blast
  from arg_cong [OF s'(2), of "\<lambda>xs. xs ! 0"] s'(1) have v0: "vs ! 0 = timestamp_day (t\<lparr>tzinfo := Some 0\<rparr>)"
    by (simp add: nine_phases_def)
  from arg_cong [OF s'(4), of "\<lambda>xs. xs ! 0"] s'(1) have
    "Inr (all_patterns s' ! 0) = add (all_patterns tss_empty ! 0) (PyFloat (vs ! 0)) PyNone"
    by (simp add: length_all_patterns)
  then have "add (day tss_empty) (PyFloat (timestamp_day (t\<lparr>tzinfo := Some 0\<rparr>))) PyNone
               = Inr (day s')"
    by (simp add: v0 all_patterns_def slots_def)
  with s'(3) show ?thesis by blast
qed

text \<open>
  The claim as stated, that two inputs denoting the same instant in different zones
  give identical phases, fails: the zone is overwritten, not converted. 23:30 UTC on
  1 January 2020 and 00:30 at UTC+1 on 2 January 2020 are the same instant, and the
  \<open>day\<close> pattern receives the remainder 47/48 in day 18262 for the first and 1/48 in day
  18263 for the second.
\<close>

theorem same_instant_different_phase:
  "posix_timestamp utc_evening = posix_timestamp cet_after_midnight
   \<and> \<not> isl (tss_add_one tss_empty utc_evening)
   \<and> \<not> isl (tss_add_one tss_empty cet_after_midnight)
   \<and> remainders (day (projr (tss_add_one tss_empty utc_evening))) = [47 / 48]
   \<and> remainders (day (projr (tss_add_one tss_empty cet_after_midnight))) = [1 / 48]
   \<and> map fst (p_quotients (day (projr (tss_add_one tss_empty utc_evening)))) = [18262]
   \<and> map fst (p_quotients (day (projr (tss_add_one tss_empty cet_after_midnight)))) = [18263]"
proof -
  from day_after_add [OF valid_examples(1,2)] obtain s1 where
    s1: "tss_add_one tss_empty utc_evening = Inr s1"
      "add (day tss_empty) (PyFloat (timestamp_day (utc_evening\<lparr>tzinfo := Some 0\<rparr>))) PyNone
         = Inr (day s1)"
    by blast
  from day_after_add [OF valid_examples(3,4)] obtain s2 where
    s2: "tss_add_one tss_empty cet_after_midnight = Inr s2"
      "add (day tss_empty) (PyFloat (timestamp_day (cet_after_midnight\<lparr>tzinfo := Some 0\<rparr>))) PyNone
         = Inr (day s2)"
    by blast
  have e: "modulo (day tss_empty) = IntNum 1" "remainders (day tss_empty) = []"
    "p_quotients (day tss_empty) = []"
    using tss_empty_patterns(2) by (simp_all add: all_patterns_def slots_def)
  have r1: "remainders (day s1) = [47 / 48] \<and> map fst (p_quotients (day s1)) = [18262]"
    using s1(2) [symmetric] e float_limit_one unfolding day_phases
    by (auto simp add: add_def Let_def float_of_int_def float_divmod_def)
  have r2: "remainders (day s2) = [1 / 48] \<and> map fst (p_quotients (day s2)) = [18263]"
    using s2(2) [symmetric] e float_limit_one unfolding day_phases
    by (auto simp add: add_def Let_def float_of_int_def float_divmod_def)
  from same_instant s1(1) s2(1) r1 r2 show ?thesis by simp
qed

subsection \<open>likelihood\<close>

lemma likelihood_miss:
  assumes "float_divisor (modulo p)" "kde_cache p = []"
  shows "likelihood score p v = Inl TypeError"
proof -
  from py_divmod_float [OF assms(1), of v] obtain quo remainder where
    "py_divmod (PyFloat v) (modulo p) = Inr (quo, remainder)" by blast
  with assms(2) show ?thesis by (simp add: likelihood_def kde_miss)
qed

lemma likelihood_row_fails:
  assumes "float_divisor (modulo (day s))" "kde_cache (day s) = []"
  shows "likelihood_row score s t = Inl TypeError"
  using likelihood_miss [OF assms]
  by (simp add: likelihood_row_def query_def bind_e_def)

lemma tss_likelihood_fails:
  assumes w: "wf_set s" and c: "no_caches s" and ne: "ts \<noteq> []"
    and z: "list_all (\<lambda>t. tzinfo t = None) ts \<or> list_all (\<lambda>t. tzinfo t \<noteq> None) ts"
  shows "tss_likelihood score s ts = Inl TypeError"
proof -
  have so: "sorted_timestamps ts = Inr (sort_key sort_instant ts)"
    using z by (auto simp add: sorted_timestamps_def list_all_iff list_ex_iff)
  from ne have "sort_key sort_instant ts \<noteq> []"
    using length_sort [of sort_instant ts] by (metis length_0_conv)
  then obtain u us where u: "sort_key sort_instant ts = u # us"
    by (cases "sort_key sort_instant ts") auto
  have d: "float_divisor (modulo (day s))" "kde_cache (day s) = []"
    using w c
    by (simp_all add: wf_set_def float_state_def no_caches_def all_patterns_def slots_def)
  show ?thesis
    by (simp add: tss_likelihood_def so u likelihood_row_fails [OF d])
qed

text \<open>
  Claim C2. The specification expects one combined number per timestamp. On the code
  every call with a non-empty batch raises \<open>TypeError\<close>: the first point likelihood asks
  the \<open>day\<close> pattern for its density curve, \<open>kde\<close> passes the list \<open>self.remainders\<close> to
  \<open>plot_kde_modulo\<close>, and \<open>xs % modulo\<close> is not defined for a list. Here the set holds
  the one timestamp it is then asked about.
\<close>

theorem likelihood_raises_type_error:
  "tss_add_one tss_empty sample_timestamp = Inr tss_one
   \<and> tss_likelihood score tss_one [sample_timestamp] = Inl TypeError"
proof -
  have "list_all (\<lambda>t. tzinfo t = None) [sample_timestamp]"
    by (simp add: sample_timestamp_def)
  then have "list_all (\<lambda>t. tzinfo t = None) [sample_timestamp]
               \<or> list_all (\<lambda>t. tzinfo t \<noteq> None) [sample_timestamp]" ..
  from tss_likelihood_fails [OF tss_one_ok(2,3) _ this, of score] tss_one_ok(1)
  show ?thesis by simp
qed

subsection \<open>similarity\<close>

lemma n_periods_nonneg:
  assumes "n_periods p = Inr n"
  shows "py_ge n (Fin 0)"
proof -
  from assms obtain q where "n = py_max (Fin 0) q"
    by (auto simp add: n_periods_def split: sum.splits)
  then show ?thesis by (cases q) (simp_all add: py_max_def)
qed

lemma valid_day_of_twelve:
  assumes w: "wf_set s"
    and rc: "received_counts s = [12, 12, 12, 12, 12, 12, 12, 12, 12]"
    and mi: "map min_items (all_patterns s) = [12, 12, 12, 12, 12, 12, 24, 36, 72]"
    and mp: "map min_periods (all_patterns s) = [0, 4, 12, 4, 6, 4, 4, 4, 4]"
  shows "valid (day s)"
proof -
  have p: "day s = all_patterns s ! 0"
    by (simp add: all_patterns_def slots_def)
  have m: "float_state (day s)"
    unfolding p by (rule wf_pattern(1) [OF w]) simp
  from n_periods_float_state [OF m] obtain n where n: "n_periods (day s) = Inr n"
    by blast
  have mi: "min_items (day s) = 12"
    using arg_cong [OF mi, of "\<lambda>xs. xs ! 0"]
    by (simp add: p length_all_patterns)
  have mp: "min_periods (day s) = 0"
    using arg_cong [OF mp, of "\<lambda>xs. xs ! 0"]
    by (simp add: p length_all_patterns)
  have ln: "length (remainders (day s)) = 12"
    using arg_cong [OF rc, of "\<lambda>xs. xs ! 0"]
    by (simp add: p received_counts_def length_all_patterns)
  show ?thesis
    using n n_periods_nonneg [OF n] mi mp ln
    by (simp add: valid_def is_valid_def)
qed

lemma vectors_fail_of_valid_day:
  assumes w: "wf_set s" and c: "no_caches s" and v: "valid (day s)"
  shows "vectors_fail score s"
proof -
  have p: "day s = all_patterns s ! 0"
    by (simp add: all_patterns_def slots_def)
  have d: "0 < vector_dimension (day s)"
    unfolding p by (rule wf_pattern(2) [OF w]) simp
  have c: "kde_cache (day s) = []" "elems (vector_cache (day s)) = []"
    using c by (simp_all add: no_caches_def all_patterns_def slots_def)
  have "vector score (day s) = Inl TypeError"
    using d c by (simp add: vector_def kde_miss)
  then have "vec_of score (all_patterns s ! 0) = None"
    by (simp add: vec_of_def p)
  moreover have "0 \<in> set (valid_indices s)"
    using v by (simp add: valid_indices_def p)
  ultimately show ?thesis
    by (auto simp add: vectors_fail_def list_ex_iff)
qed

lemma valid_day_twelve: "valid (day tss_twelve)"
  by (rule valid_day_of_twelve [OF tss_twelve_ok(2,4,5,6)])

lemma vectors_fail_twelve: "vectors_fail score tss_twelve"
  by (rule vectors_fail_of_valid_day [OF tss_twelve_ok(2,3) valid_day_twelve])

lemma valid_day_evening: "valid (day tss_evening)"
  by (rule valid_day_of_twelve [OF tss_evening_ok(2,4,5,6)])

lemma vectors_fail_evening: "vectors_fail score tss_evening"
  by (rule vectors_fail_of_valid_day [OF tss_evening_ok(2,3) valid_day_evening])

lemma no_valid_below_twelve:
  assumes mi: "map min_items (all_patterns s) = [12, 12, 12, 12, 12, 12, 24, 36, 72]"
    and rc: "list_all (\<lambda>n. n < 12) (received_counts s)"
  shows "valid_indices s = []"
proof -
  have "\<And>j. j < 9 \<Longrightarrow> \<not> valid (all_patterns s ! j)"
  proof -
    fix j :: nat assume j: "j < 9"
    have "map min_items (all_patterns s) ! j = [12, 12, 12, 12, 12, 12, 24, 36, 72] ! j"
      by (simp add: mi)
    with j have m: "12 \<le> min_items (all_patterns s ! j)"
      by (cases j rule: nine_cases) (simp_all add: length_all_patterns)
    from rc j have "length (remainders (all_patterns s ! j)) < 12"
      by (simp add: received_counts_def list_all_length length_all_patterns)
    with m show "\<not> valid (all_patterns s ! j)"
      by (auto simp add: valid_def is_valid_def split: sum.splits)
  qed
  then show ?thesis
    by (auto simp add: valid_indices_def filter_empty_conv)
qed

lemma no_valid_empty: "valid_indices tss_empty = []"
proof (rule no_valid_below_twelve)
  show "map min_items (all_patterns tss_empty) = [12, 12, 12, 12, 12, 12, 24, 36, 72]"
    by (rule tss_empty_patterns(4))
  show "list_all (\<lambda>n. n < 12) (received_counts tss_empty)"
    by (simp add: received_counts_def all_patterns_def slots_def tss_empty_remainders)
qed

lemma no_valid_one: "valid_indices tss_one = []"
proof (rule no_valid_below_twelve)
  show "map min_items (all_patterns tss_one) = [12, 12, 12, 12, 12, 12, 24, 36, 72]"
    by (rule tss_one_ok(5))
  show "list_all (\<lambda>n. n < 12) (received_counts tss_one)"
    by (simp add: tss_one_ok(4))
qed

lemma common_similarities_none:
  assumes "valid_indices a = [] \<or> valid_indices b = []"
  shows "common_similarities score a b = []"
proof -
  have "\<And>j. j < 9 \<Longrightarrow> \<not> (valid (all_patterns a ! j) \<and> valid (all_patterns b ! j))"
    using assms by (auto simp add: valid_indices_def filter_empty_conv)
  then show ?thesis
    by (auto simp add: common_similarities_def filter_empty_conv)
qed

text \<open>
  Claim C3. The specification expects the combined dot products of the patterns that are
  valid in both sets. On the code \<open>similarity\<close> raises \<open>TypeError\<close> as soon as one of the
  two sets has a valid pattern, since the embedding of a valid pattern needs the density
  curve and \<open>kde\<close> passes a list to \<open>plot_kde_modulo\<close>. Twelve timestamps make the
  \<open>day\<close> pattern valid. Only the case without any valid pattern works and gives
  \<open>(0, 0)\<close>.
\<close>

theorem similarity_raises_type_error:
  "tss_add tss_empty (replicate 12 sample_timestamp) = Inr tss_twelve
   \<and> valid (day tss_twelve)
   \<and> tss_similarity score tss_twelve tss_twelve = Inl TypeError
   \<and> tss_similarity score tss_twelve tss_empty = Inl TypeError
   \<and> tss_similarity score tss_empty tss_twelve = Inl TypeError
   \<and> (\<exists>a' b'. tss_similarity score tss_empty tss_empty = Inr ((0, 0), a', b'))"
proof -
  have ne: "\<not> vectors_fail score tss_empty"
    by (simp add: vectors_fail_def no_valid_empty)
  have ce: "common_similarities score tss_empty tss_empty = []"
    by (rule common_similarities_none) (simp add: no_valid_empty)
  from tss_similarity_gen [OF tss_twelve_ok(2) tss_twelve_ok(2), of score]
    tss_similarity_gen [OF tss_twelve_ok(2) wf_set_empty, of score]
    tss_similarity_gen [OF wf_set_empty tss_twelve_ok(2), of score]
    tss_similarity_gen [OF wf_set_empty wf_set_empty, of score]
    vectors_fail_twelve [of score] ne ce tss_twelve_ok(1) valid_day_twelve
  show ?thesis by simp
qed

text \<open>
  The two orders of \<open>similarity\<close> have the same outcome on two well-formed sets,
  whatever the caches of their patterns contain: the attributes valid in both sets are
  the same either way and the dot product commutes, so either both calls return the same
  score and count, or both raise \<open>TypeError\<close>.
\<close>

lemma similarity_outcomes_agree:
  assumes a: "wf_set a" and b: "wf_set b"
  shows "(\<exists>r a' b' a'' b''. tss_similarity score a b = Inr (r, a', b')
            \<and> tss_similarity score b a = Inr (r, b'', a''))
         \<or> (tss_similarity score a b = Inl TypeError \<and> tss_similarity score b a = Inl TypeError)"
proof (cases "vectors_fail score a \<or> vectors_fail score b")
  case True
  with tss_similarity_gen [OF a b, of score] tss_similarity_gen [OF b a, of score]
  show ?thesis by auto
next
  case False
  then have f: "\<not> (vectors_fail score a \<or> vectors_fail score b)"
    "\<not> (vectors_fail score b \<or> vectors_fail score a)" by auto
  from tss_similarity_gen [OF a b, of score] f(1) obtain a' b' where
    1: "tss_similarity score a b
          = Inr (if common_similarities score a b = [] then (0, 0)
                 else ((sum_list (map (\<lambda>x. x powr (1 / 10)) (common_similarities score a b))
                          / of_nat (length (common_similarities score a b))) ^ 10,
                       length (common_similarities score a b)), a', b')"
    by auto
  from tss_similarity_gen [OF b a, of score] f(2) obtain b'' a'' where
    2: "tss_similarity score b a
          = Inr (if common_similarities score b a = [] then (0, 0)
                 else ((sum_list (map (\<lambda>x. x powr (1 / 10)) (common_similarities score b a))
                          / of_nat (length (common_similarities score b a))) ^ 10,
                       length (common_similarities score b a)), b'', a'')"
    by auto
  from 1 2 common_similarities_commute [of score a b] show ?thesis by auto
qed

text \<open>
  Claim C10. The specification expects \<open>a.similarity(b)\<close> and \<open>b.similarity(a)\<close> to
  return the same score and the same count. On the code neither call returns as soon as
  one of the two sets has a valid pattern: both raise \<open>TypeError\<close>, since the embedding
  of a valid pattern needs the density curve and \<open>kde\<close> passes a list to
  \<open>plot_kde_modulo\<close>. Here the two sets hold twelve timestamps each, at 12:23 and at
  23:30 of the same day, and the \<open>day\<close> pattern is valid in both.
\<close>

theorem similarity_returns_no_score:
  "tss_add tss_empty (replicate 12 sample_timestamp) = Inr tss_twelve
   \<and> tss_add tss_empty (replicate 12 utc_evening) = Inr tss_evening
   \<and> valid (day tss_twelve) \<and> valid (day tss_evening)
   \<and> tss_similarity score tss_twelve tss_evening = Inl TypeError
   \<and> tss_similarity score tss_evening tss_twelve = Inl TypeError"
proof -
  from tss_similarity_gen [OF tss_twelve_ok(2) tss_evening_ok(2), of score]
    tss_similarity_gen [OF tss_evening_ok(2) tss_twelve_ok(2), of score]
    vectors_fail_twelve [of score] vectors_fail_evening [of score]
    tss_twelve_ok(1) tss_evening_ok(1) valid_day_twelve valid_day_evening
  show ?thesis by simp
qed

end
